theory Spec2Isabelle
  imports Complex_Main "HOL-Library.Word" "HOL-Library.Sublist"
begin

section \<open>Python values used by \<open>main.py\<close>\<close>

text \<open>
  A \<open>bytearray\<close> is a list of bytes. Python's \<open>int\<close> is unbounded, so it is \<open>int\<close>.
  A Python \<open>float\<close> is an IEEE-754 binary64 number; the finite ones are rationals, and the
  model carries a float as the rational it denotes. The numbers that \<open>main.py\<close> computes
  are quotients of non-negative integers and clock readings, so signed zeros, infinities
  and NaN do not occur.
\<close>

type_synonym byte = "8 word"

type_synonym double = rat

datatype pyval = PyInt int | PyFloat double

text \<open>
  The exceptions of the program. \<open>Exception\<close>, \<open>OverflowError\<close> and \<open>ZeroDivisionError\<close>
  derive from Python's \<open>Exception\<close>; \<open>KeyboardInterrupt\<close>, \<open>CancelledError\<close> and
  \<open>SystemExit\<close> derive from \<open>BaseException\<close> only, so \<open>except Exception\<close> does not
  catch them.
\<close>

datatype exn =
    Exception string
  | OverflowError
  | ZeroDivisionError
  | KeyboardInterrupt
  | CancelledError
  | SystemExit

fun is_Exception :: "exn \<Rightarrow> bool" where
  "is_Exception (Exception _) = True"
| "is_Exception OverflowError = True"
| "is_Exception ZeroDivisionError = True"
| "is_Exception KeyboardInterrupt = False"
| "is_Exception CancelledError = False"
| "is_Exception SystemExit = False"

subsection \<open>\<open>int.from_bytes(data, byteorder='little')\<close> and slicing\<close>

fun from_bytes_little :: "byte list \<Rightarrow> int" where
  "from_bytes_little [] = 0"
| "from_bytes_little (b # bs) = uint b + 256 * from_bytes_little bs"

text \<open>\<open>data[i:j]\<close> for constant bounds \<open>0 \<le> i \<le> j\<close>: never raises, truncates at the end.\<close>

definition pyslice :: "nat \<Rightarrow> nat \<Rightarrow> 'a list \<Rightarrow> 'a list" where
  "pyslice i j xs = take (j - i) (drop i xs)"

subsection \<open>True division of integers\<close>

text \<open>
  Python's \<open>a / b\<close> on two \<open>int\<close>s returns the binary64 number nearest to the exact
  quotient (ties to the even significand), raises \<open>ZeroDivisionError\<close> when \<open>b\<close> is zero
  and \<open>OverflowError\<close> when the rounded quotient is beyond the largest finite float.
\<close>

fun bit_length :: "nat \<Rightarrow> nat" where
  "bit_length n = (if n = 0 then 0 else Suc (bit_length (n div 2)))"

declare bit_length.simps [simp del]

text \<open>The exponent \<open>e\<close> with \<open>2 ^ e \<le> a / b < 2 ^ (e + 1)\<close>, for positive \<open>a\<close> and \<open>b\<close>.\<close>

definition binade :: "nat \<Rightarrow> nat \<Rightarrow> int" where
  "binade a b =
     (let d = int (bit_length a) - int (bit_length b)
      in if (if 0 \<le> d then b * 2 ^ nat d \<le> a else b \<le> a * 2 ^ nat (- d)) then d
         else d - 1)"

text \<open>The integer nearest to \<open>n / d\<close>, a tie going to the even one.\<close>

definition div_half_even :: "nat \<Rightarrow> nat \<Rightarrow> nat" where
  "div_half_even n d =
     (let q = n div d; r = n mod d
      in if 2 * r < d then q
         else if d < 2 * r then q + 1
         else if even q then q else q + 1)"

text \<open>
  Rounding of \<open>a / b\<close> (\<open>a\<close>, \<open>b\<close> positive) to 53 significant bits: the result is a
  multiple of \<open>2 ^ s\<close>, where \<open>s\<close> is the exponent of the quotient less 52; below the
  smallest normal exponent the spacing stays \<open>2 ^ -1074\<close>.
\<close>

definition spacing :: "nat \<Rightarrow> nat \<Rightarrow> int" where
  "spacing a b = max (binade a b) (- 1022) - 52"

definition round_quot :: "nat \<Rightarrow> nat \<Rightarrow> double" where
  "round_quot a b =
     (let s = spacing a b;
          m = (if 0 \<le> s then div_half_even a (b * 2 ^ nat s)
               else div_half_even (a * 2 ^ nat (- s)) b)
      in of_nat m * 2 powi s)"

definition DBL_MAX :: double where
  "DBL_MAX = 2 ^ 1024 - 2 ^ 971"

definition py_truediv :: "int \<Rightarrow> int \<Rightarrow> exn + double" where
  "py_truediv a b =
     (if b = 0 then Inl ZeroDivisionError
      else if a = 0 then Inr 0
      else let r = round_quot (nat \<bar>a\<bar>) (nat \<bar>b\<bar>)
           in if DBL_MAX < r then Inl OverflowError
              else Inr (if (a < 0) = (b < 0) then r else - r))"

text \<open>Python's \<open>==\<close> on numbers compares the values, whatever the two types.\<close>

fun py_eq :: "pyval \<Rightarrow> pyval \<Rightarrow> bool" where
  "py_eq (PyInt i) (PyInt j) = (i = j)"
| "py_eq (PyInt i) (PyFloat y) = (of_int i = y)"
| "py_eq (PyFloat x) (PyInt j) = (x = of_int j)"
| "py_eq (PyFloat x) (PyFloat y) = (x = y)"

text \<open>\<open>float(v)\<close>: a float is returned as it is, an \<open>int\<close> is rounded like \<open>v / 1\<close>.\<close>

fun py_float :: "pyval \<Rightarrow> exn + double" where
  "py_float (PyFloat x) = Inr x"
| "py_float (PyInt i) = py_truediv i 1"

section \<open>The temperature decoder\<close>

text \<open>
  \<^verbatim>\<open>
  def bytes_to_temperature(data: bytearray):
      raw = int.from_bytes(data, byteorder='little')
      if raw == 0xffff:
          return 0
      return raw / 10
  \<close>
\<close>

definition bytes_to_temperature :: "byte list \<Rightarrow> exn + pyval" where
  "bytes_to_temperature data =
     (let raw = from_bytes_little data
      in if raw = 0xffff then Inr (PyInt 0)
         else case py_truediv raw 10 of
                Inl e \<Rightarrow> Inl e
              | Inr x \<Rightarrow> Inr (PyFloat x))"

section \<open>Configuration, metrics registry and log\<close>

text \<open>
  \<open>args\<close> is the namespace that \<open>argparse\<close> returns: an option that is not given on the
  command line is \<open>None\<close>.
\<close>

record args =
  address :: "string option"
  probe1_name :: "string option"
  probe2_name :: "string option"
  debug :: bool

text \<open>
  The label value of a gauge child is \<open>str(v)\<close> of the keyword argument passed to
  \<open>labels\<close>, so \<open>None\<close> becomes the string \<open>'None'\<close>.
\<close>

definition label_value :: "string option \<Rightarrow> string" where
  "label_value v = (case v of None \<Rightarrow> ''None'' | Some n \<Rightarrow> n)"

datatype log_record =
    LogInfo string
  | LogNotify string "byte list"
  | LogTemperatures pyval pyval
  | LogException string exn
  | LogError exn

text \<open>
  The module's global state: the children of the gauge \<open>temperature\<close> by label value, the
  gauge \<open>last_received\<close> (a gauge starts at 0), and what \<open>logger\<close> has been given.
\<close>

record globals =
  temperature :: "string \<rightharpoonup> double"
  last_received :: double
  logger :: "log_record list"

definition logger_emit :: "log_record \<Rightarrow> globals \<Rightarrow> globals" where
  "logger_emit r g = g\<lparr>logger := logger g @ [r]\<rparr>"

text \<open>\<open>temperature.labels(name=n).set(v)\<close> stores \<open>float(v)\<close> in the child for \<open>str(n)\<close>.\<close>

definition temperature_set :: "string option \<Rightarrow> pyval \<Rightarrow> globals \<Rightarrow> exn + globals" where
  "temperature_set n v g =
     (case py_float v of
        Inl e \<Rightarrow> Inl e
      | Inr x \<Rightarrow> Inr (g\<lparr>temperature := (temperature g)(label_value n \<mapsto> x)\<rparr>))"

text \<open>\<open>last_received.set_to_current_time()\<close>; \<open>now\<close> is what \<open>time.time()\<close> returns.\<close>

definition set_to_current_time :: "double \<Rightarrow> globals \<Rightarrow> globals" where
  "set_to_current_time now g = g\<lparr>last_received := now\<rparr>"

section \<open>The notification handler\<close>

text \<open>
  \<^verbatim>\<open>
  def data_notify_handler(characteristic: BleakGATTCharacteristic, data: bytearray):
      logger.info("%s: %r", characteristic.description, data)
      temp1 = bytes_to_temperature(data[0:2])
      temp2 = bytes_to_temperature(data[2:4])
      temperature.labels(name=args.probe1_name).set(temp1)
      temperature.labels(name=args.probe2_name).set(temp2)
      last_received.set_to_current_time()
      logger.info("t1: %f - t2: %f", temp1, temp2)
  \<close>
  The characteristic is present through its description, the clock through the reading
  \<open>now\<close> that \<open>set_to_current_time\<close> takes. An exception leaves the handler at the
  statement that raises it, with the effects of the earlier statements lost to the caller
  of the model (\<open>Inl\<close>).
\<close>

definition data_notify_handler ::
    "args \<Rightarrow> double \<Rightarrow> string \<Rightarrow> byte list \<Rightarrow> globals \<Rightarrow> exn + globals" where
  "data_notify_handler a now description data g =
     (let g1 = logger_emit (LogNotify description data) g
      in case bytes_to_temperature (pyslice 0 2 data) of
           Inl e \<Rightarrow> Inl e
         | Inr temp1 \<Rightarrow>
             (case bytes_to_temperature (pyslice 2 4 data) of
                Inl e \<Rightarrow> Inl e
              | Inr temp2 \<Rightarrow>
                  (case temperature_set (probe1_name a) temp1 g1 of
                     Inl e \<Rightarrow> Inl e
                   | Inr g2 \<Rightarrow>
                       (case temperature_set (probe2_name a) temp2 g2 of
                          Inl e \<Rightarrow> Inl e
                        | Inr g3 \<Rightarrow>
                            Inr (logger_emit (LogTemperatures temp1 temp2)
                                   (set_to_current_time now g3))))))"

section \<open>The decoder and the handler as statements over the store\<close>

text \<open>
  A Python function receives a \<open>bytearray\<close> by reference and sees the module's globals,
  so it can change both under the eyes of its caller. The store holds what a function
  can change: the \<open>bytearray\<close> objects by address, the next free address, and the
  globals of the module. A statement takes the store and gives back a value or an
  exception, and the store after it; \<open>py_bind\<close> runs a statement and then, unless it
  raised, the rest.
\<close>

type_synonym addr = nat

record store =
  heap :: "addr \<Rightarrow> byte list"
  next_free :: addr
  module :: globals

type_synonym 'a stmt = "store \<Rightarrow> (exn + 'a) \<times> store"

definition py_return :: "'a \<Rightarrow> 'a stmt" where
  "py_return v s = (Inr v, s)"

definition py_bind :: "'a stmt \<Rightarrow> ('a \<Rightarrow> 'b stmt) \<Rightarrow> 'b stmt" where
  "py_bind m f s = (case m s of (Inl e, s') \<Rightarrow> (Inl e, s') | (Inr x, s') \<Rightarrow> f x s')"

text \<open>\<open>int.from_bytes(data, byteorder='little')\<close> reads the object that \<open>data\<close> refers to.\<close>

definition int_from_bytes :: "addr \<Rightarrow> int stmt" where
  "int_from_bytes data s = (Inr (from_bytes_little (heap s data)), s)"

text \<open>\<open>a / b\<close> on two \<open>int\<close>s, which are immutable values.\<close>

definition true_divide :: "int \<Rightarrow> int \<Rightarrow> double stmt" where
  "true_divide a b s = (py_truediv a b, s)"

text \<open>
  \<open>data[i:j]\<close> on a \<open>bytearray\<close> makes a new \<open>bytearray\<close> with a copy of the bytes, and
  gives the reference to it.
\<close>

definition getslice :: "addr \<Rightarrow> nat \<Rightarrow> nat \<Rightarrow> addr stmt" where
  "getslice data i j s =
     (Inr (next_free s),
      s\<lparr>heap := (heap s)(next_free s := pyslice i j (heap s data)),
        next_free := Suc (next_free s)\<rparr>)"

text \<open>A statement that works on the globals of the module.\<close>

definition on_module :: "(globals \<Rightarrow> exn + globals) \<Rightarrow> unit stmt" where
  "on_module f s =
     (case f (module s) of Inl e \<Rightarrow> (Inl e, s) | Inr g \<Rightarrow> (Inr (), s\<lparr>module := g\<rparr>))"

text \<open>
  The body of \<open>bytes_to_temperature\<close>, statement by statement, on the reference \<open>data\<close>:
  \<^verbatim>\<open>
      raw = int.from_bytes(data, byteorder='little')
      if raw == 0xffff:
          return 0
      return raw / 10
  \<close>
\<close>

definition bytes_to_temperature_stmts :: "addr \<Rightarrow> pyval stmt" where
  "bytes_to_temperature_stmts data =
     py_bind (int_from_bytes data) (\<lambda>raw.
       if raw = 0xffff then py_return (PyInt 0)
       else py_bind (true_divide raw 10) (\<lambda>x. py_return (PyFloat x)))"

text \<open>
  The body of \<open>data_notify_handler\<close> in the same form. It logs, makes the two slices,
  calls the decoder on each, and writes the gauges, the timestamp and the log.
\<close>

definition data_notify_handler_stmts :: "args \<Rightarrow> double \<Rightarrow> string \<Rightarrow> addr \<Rightarrow> unit stmt" where
  "data_notify_handler_stmts a now description data =
     py_bind (\<lambda>s. on_module (\<lambda>g. Inr (logger_emit (LogNotify description (heap s data)) g)) s)
       (\<lambda>_.
     py_bind (getslice data 0 2) (\<lambda>window1.
     py_bind (bytes_to_temperature_stmts window1) (\<lambda>temp1.
     py_bind (getslice data 2 4) (\<lambda>window2.
     py_bind (bytes_to_temperature_stmts window2) (\<lambda>temp2.
     py_bind (on_module (temperature_set (probe1_name a) temp1)) (\<lambda>_.
     py_bind (on_module (temperature_set (probe2_name a) temp2)) (\<lambda>_.
     py_bind (on_module (\<lambda>g. Inr (set_to_current_time now g))) (\<lambda>_.
     on_module (\<lambda>g. Inr (logger_emit (LogTemperatures temp1 temp2) g))))))))))"

section \<open>The connection supervisor\<close>

text \<open>
  \<open>main\<close> is a coroutine: it runs until the next call into the BLE library or
  \<open>asyncio\<close>, and goes on when that call returns or raises. The model is the transition
  function of this coroutine. What the outside world answers is an input: a \<open>reply\<close>.
\<close>

datatype pyobj = PyNone | PyBool bool | PyObject

text \<open>Truth value of an object, as \<open>not\<close> takes it.\<close>

fun truthy :: "pyobj \<Rightarrow> bool" where
  "truthy PyNone = False"
| "truthy (PyBool b) = b"
| "truthy PyObject = True"

datatype reply = Returns pyobj | Raises exn

definition data_characteristic :: string where
  "data_characteristic = ''0000fff4-0000-1000-8000-00805f9b34fb''"

definition settings_characteristic :: string where
  "settings_characteristic = ''0000fff5-0000-1000-8000-00805f9b34fb''"

definition use_celsius :: "byte list" where
  "use_celsius = [0x02, 0x00, 0x00, 0x00, 0x00, 0x00]"

definition enable_realtime :: "byte list" where
  "enable_realtime = [0x0B, 0x01, 0x00, 0x00, 0x00, 0x00]"

text \<open>The calls that \<open>main\<close> makes, with their arguments.\<close>

datatype call =
    ScanDevices
  | FindDeviceByAddress "string option"
  | Connect
  | Services
  | WriteGattChar string "byte list"
  | StartNotify string
  | Sleep nat
  | IsConnected
  | StopNotify string
  | Disconnect

datatype event = Call call | Reply reply

text \<open>
  Where the coroutine is suspended. \<open>AtExit p\<close> is the exit of the \<open>async with\<close> block
  (\<open>BleakClient.__aexit__\<close>, which disconnects and does not swallow the exception) with
  the exception \<open>p\<close> in flight, if any. \<open>Terminated e\<close>: \<open>e\<close> has left \<open>main\<close>.
\<close>

datatype pc =
    AtScanDevices
  | AtFindDevice
  | AtConnect
  | AtServices
  | AtWriteCelsius
  | AtWriteRealtime
  | AtStartNotify
  | AtPollSleep
  | AtIsConnected
  | AtStopNotify
  | AtExit "exn option"
  | AtRetrySleep
  | Terminated exn

record state =
  pc :: pc
  trace :: "event list"
  env :: globals

definition issue :: "pc \<Rightarrow> call \<Rightarrow> state \<Rightarrow> state" where
  "issue p c s = s\<lparr>pc := p, trace := trace s @ [Call c]\<rparr>"

definition info :: "string \<Rightarrow> state \<Rightarrow> state" where
  "info m s = s\<lparr>env := logger_emit (LogInfo m) (env s)\<rparr>"

text \<open>
  \<^verbatim>\<open>
  async def main(args: argparse.Namespace):
      while True:
          try:
              logger.info("starting scan...")
              await scan_devices()
  \<close>
\<close>

definition loop_top :: "state \<Rightarrow> state" where
  "loop_top s = issue AtScanDevices ScanDevices (info ''starting scan...'' s)"

text \<open>
  \<^verbatim>\<open>
          except Exception as e:
              logger.exception("Exception in main loop")
              logger.error(e)
              logger.info("Retrying in 5 seconds...")
              await asyncio.sleep(5.0)
  \<close>
  An exception that is not an \<open>Exception\<close> passes the clause and leaves \<open>main\<close>.
\<close>

definition except_Exception :: "exn \<Rightarrow> state \<Rightarrow> state" where
  "except_Exception e s =
     (if is_Exception e
      then issue AtRetrySleep (Sleep 5)
             (info ''Retrying in 5 seconds...''
                (s\<lparr>env := logger_emit (LogError e)
                        (logger_emit (LogException ''Exception in main loop'' e) (env s))\<rparr>))
      else s\<lparr>pc := Terminated e\<rparr>)"

text \<open>Leaving the body of \<open>async with BleakClient(device) as client\<close>.\<close>

definition aexit :: "exn option \<Rightarrow> state \<Rightarrow> state" where
  "aexit p s = issue (AtExit p) Disconnect s"

text \<open>
  The inner \<open>try\<close> around the polling loop has the clause \<open>except KeyboardInterrupt: pass\<close>,
  after which \<open>stop_notify\<close> is awaited; any other exception leaves the \<open>with\<close> block.
\<close>

definition except_KeyboardInterrupt :: "exn \<Rightarrow> state \<Rightarrow> state" where
  "except_KeyboardInterrupt e s =
     (if e = KeyboardInterrupt then issue AtStopNotify (StopNotify data_characteristic) s
      else aexit (Some e) s)"

text \<open>
  \<open>resume a p r s\<close>: the coroutine, suspended at \<open>p\<close>, receives \<open>r\<close> and runs to its next
  suspension. The equations follow lines 83 to 123 of \<open>main.py\<close> in order.
\<close>

fun resume :: "args \<Rightarrow> pc \<Rightarrow> reply \<Rightarrow> state \<Rightarrow> state" where
  "resume a AtScanDevices (Returns v) s =
     issue AtFindDevice (FindDeviceByAddress (address a)) s"
| "resume a AtScanDevices (Raises e) s = except_Exception e s"
| "resume a AtFindDevice (Returns v) s =
     (if v = PyNone
      then except_Exception (Exception ''could not find device with address %s'') s
      else issue AtConnect Connect (info ''connecting to device...'' s))"
| "resume a AtFindDevice (Raises e) s = except_Exception e s"
| "resume a AtConnect (Returns v) s = issue AtServices Services (info ''Connected'' s)"
| "resume a AtConnect (Raises e) s = except_Exception e s"
| "resume a AtServices (Returns v) s =
     issue AtWriteCelsius (WriteGattChar settings_characteristic use_celsius) s"
| "resume a AtServices (Raises e) s = aexit (Some e) s"
| "resume a AtWriteCelsius (Returns v) s =
     issue AtWriteRealtime (WriteGattChar settings_characteristic enable_realtime) s"
| "resume a AtWriteCelsius (Raises e) s = aexit (Some e) s"
| "resume a AtWriteRealtime (Returns v) s =
     issue AtStartNotify (StartNotify data_characteristic) (info ''Starting data notify'' s)"
| "resume a AtWriteRealtime (Raises e) s = aexit (Some e) s"
| "resume a AtStartNotify (Returns v) s = issue AtPollSleep (Sleep 5) s"
| "resume a AtStartNotify (Raises e) s = aexit (Some e) s"
| "resume a AtPollSleep (Returns v) s = issue AtIsConnected IsConnected s"
| "resume a AtPollSleep (Raises e) s = except_KeyboardInterrupt e s"
| "resume a AtIsConnected (Returns v) s =
     (if \<not> truthy v then except_KeyboardInterrupt (Exception ''Disconnected'') s
      else issue AtPollSleep (Sleep 5) s)"
| "resume a AtIsConnected (Raises e) s = except_KeyboardInterrupt e s"
| "resume a AtStopNotify (Returns v) s = aexit None s"
| "resume a AtStopNotify (Raises e) s = aexit (Some e) s"
| "resume a (AtExit None) (Returns v) s = loop_top s"
| "resume a (AtExit (Some e)) (Returns v) s = except_Exception e s"
| "resume a (AtExit p) (Raises e) s = except_Exception e s"
| "resume a AtRetrySleep (Returns v) s = loop_top s"
| "resume a AtRetrySleep (Raises e) s = s\<lparr>pc := Terminated e\<rparr>"
| "resume a (Terminated e) r s = s"

text \<open>One reply: it is recorded, and the coroutine goes on. A finished \<open>main\<close> takes none.\<close>

definition main_step :: "args \<Rightarrow> state \<Rightarrow> reply \<Rightarrow> state" where
  "main_step a s r =
     (case pc s of
        Terminated e \<Rightarrow> s
      | _ \<Rightarrow> resume a (pc s) r (s\<lparr>trace := trace s @ [Reply r]\<rparr>))"

text \<open>\<open>main(args)\<close> started in the global state \<open>g\<close>, up to its first suspension.\<close>

definition main_start :: "globals \<Rightarrow> state" where
  "main_start g = loop_top \<lparr>pc = AtScanDevices, trace = [], env = g\<rparr>"

text \<open>
  The \<open>while True\<close> loop has no exit of its own, so \<open>main\<close> is run on a finite list of
  replies, one per call it makes; the state that comes back tells where it then stands.
\<close>

definition main_run :: "args \<Rightarrow> state \<Rightarrow> reply list \<Rightarrow> state" where
  "main_run a s rs = foldl (main_step a) s rs"

definition main :: "args \<Rightarrow> globals \<Rightarrow> reply list \<Rightarrow> state" where
  "main a g rs = main_run a (main_start g) rs"

text \<open>
  A reply that is a process-level interrupt: an exception outside the \<open>Exception\<close>
  hierarchy (\<open>KeyboardInterrupt\<close>, cancellation of the task, \<open>SystemExit\<close>). The retry
  delay \<open>asyncio.sleep(5.0)\<close> stands in the \<open>except\<close> clause, outside the \<open>try\<close>; a sleep
  fails only by being interrupted or cancelled, so whatever it raises counts as one.
\<close>

fun interrupt :: "pc \<Rightarrow> reply \<Rightarrow> bool" where
  "interrupt p (Returns v) = False"
| "interrupt p (Raises e) = (\<not> is_Exception e \<or> p = AtRetrySleep)"

text \<open>No reply of the list is an interrupt at the place where \<open>main\<close> receives it.\<close>

fun uninterrupted :: "args \<Rightarrow> state \<Rightarrow> reply list \<Rightarrow> bool" where
  "uninterrupted a s [] = True"
| "uninterrupted a s (r # rs) =
     (\<not> interrupt (pc s) r \<and> uninterrupted a (main_step a s r) rs)"

text \<open>
  The suspensions of the scan, the look-up and the connection stand in the outer \<open>try\<close>
  only; those from the listing of the services to \<open>stop_notify\<close> stand in the body of
  the \<open>async with\<close> block as well.
\<close>

definition outside_client :: "pc set" where
  "outside_client = {AtScanDevices, AtFindDevice, AtConnect}"

definition inside_client :: "pc set" where
  "inside_client =
     {AtServices, AtWriteCelsius, AtWriteRealtime, AtStartNotify, AtPollSleep, AtIsConnected,
      AtStopNotify}"

text \<open>
  \<open>main\<close> stands in the retry delay: the call pending is the sleep of 5 seconds, and when
  it returns \<open>main\<close> is at the scan again.
\<close>

definition retries :: "args \<Rightarrow> state \<Rightarrow> bool" where
  "retries a s \<longleftrightarrow>
     pc s = AtRetrySleep \<and> (\<exists>t. trace s = t @ [Call (Sleep 5)]) \<and>
     (\<forall>v. pc (main_step a s (Returns v)) = AtScanDevices)"

text \<open>
  \<open>main\<close> has not ended, and an exception in flight at the exit of the \<open>with\<close> block is
  one that \<open>except Exception\<close> catches.
\<close>

definition alive :: "state \<Rightarrow> bool" where
  "alive s \<longleftrightarrow>
     (\<forall>e. pc s \<noteq> Terminated e) \<and> (\<forall>e. pc s = AtExit (Some e) \<longrightarrow> is_Exception e)"

text \<open>
  Two properties of a trace. In \<open>setup_ordered\<close>, whatever precedes a subscription ends
  with the write of \<open>use_celsius\<close>, its return, the write of \<open>enable_realtime\<close> and its
  return, and whatever precedes a write of \<open>enable_realtime\<close> ends with the write of
  \<open>use_celsius\<close> and its return. In \<open>setup_pending\<close>, a trace that belongs to a \<open>main\<close>
  suspended in one of the two writes ends with the calls made for it so far.
\<close>

definition setup_ordered :: "event list \<Rightarrow> bool" where
  "setup_ordered t \<longleftrightarrow>
     (\<forall>xs ch. prefix (xs @ [Call (StartNotify ch)]) t \<longrightarrow>
        ch = data_characteristic \<and>
        (\<exists>ys v w. xs = ys @
           [Call (WriteGattChar settings_characteristic use_celsius), Reply (Returns v),
            Call (WriteGattChar settings_characteristic enable_realtime), Reply (Returns w)])) \<and>
     (\<forall>xs ch. prefix (xs @ [Call (WriteGattChar ch enable_realtime)]) t \<longrightarrow>
        (\<exists>ys v. xs = ys @
           [Call (WriteGattChar settings_characteristic use_celsius), Reply (Returns v)]))"

definition setup_pending :: "state \<Rightarrow> bool" where
  "setup_pending s \<longleftrightarrow>
     (pc s = AtWriteCelsius \<longrightarrow>
        (\<exists>t. trace s = t @ [Call (WriteGattChar settings_characteristic use_celsius)])) \<and>
     (pc s = AtWriteRealtime \<longrightarrow>
        (\<exists>t v. trace s = t @
           [Call (WriteGattChar settings_characteristic use_celsius), Reply (Returns v),
            Call (WriteGattChar settings_characteristic enable_realtime)]))"

section \<open>Facts about the arithmetic\<close>

subsection \<open>Evaluation on numerals\<close>

lemma bit_length_0: "bit_length 0 = 0"
  by (simp add: bit_length.simps)

lemma bit_length_numeral: "bit_length (numeral k) = Suc (bit_length (numeral k div 2))"
  by (subst bit_length.simps) simp

lemma bit_length_1: "bit_length 1 = 1"
  by (subst bit_length.simps) (simp add: bit_length_0)

lemma bit_length_Suc_0: "bit_length (Suc 0) = 1"
  by (subst bit_length.simps) (simp add: bit_length_0)

lemmas truediv_eval = py_truediv_def round_quot_def spacing_def binade_def div_half_even_def
  DBL_MAX_def bit_length_0 bit_length_1 bit_length_numeral Let_def

subsection \<open>The exponent of a quotient\<close>

lemma bit_length_pos: "0 < n \<Longrightarrow> 0 < bit_length n"
  by (subst bit_length.simps) simp

lemma bit_length_bounds:
  "0 < n \<Longrightarrow> 2 ^ (bit_length n - 1) \<le> n \<and> n < 2 ^ bit_length n"
proof (induction n rule: bit_length.induct)
  case (1 n)
  show ?case
  proof (cases "n div 2 = 0")
    case True
    with 1(2) have "n = 1" by presburger
    then show ?thesis by (simp add: bit_length_Suc_0)
  next
    case False
    define k where "k = bit_length (n div 2)"
    have pos: "0 < n div 2" using False by simp
    have IH: "2 ^ (k - 1) \<le> n div 2 \<and> n div 2 < 2 ^ k"
      unfolding k_def using 1(1) 1(2) pos by simp
    have kpos: "0 < k" unfolding k_def using pos by (rule bit_length_pos)
    have bl: "bit_length n = Suc k"
      unfolding k_def using 1(2) by (subst bit_length.simps) simp
    have p: "(2::nat) ^ k = 2 * 2 ^ (k - 1)"
      using kpos by (cases k) simp_all
    have lo: "(2::nat) ^ k \<le> n" using IH p by presburger
    have hi: "n < 2 * 2 ^ k" using IH by presburger
    show ?thesis using lo hi by (simp add: bl)
  qed
qed

lemma bit_length_bounds_rat:
  assumes "0 < n"
  shows "2 powi (int (bit_length n) - 1) \<le> rat_of_nat n"
    and "rat_of_nat n < 2 powi (int (bit_length n))"
proof -
  from bit_length_bounds [OF assms]
  have lo: "2 ^ (bit_length n - 1) \<le> n" and hi: "n < 2 ^ bit_length n" by simp_all
  have "0 < bit_length n" using assms by (rule bit_length_pos)
  then have e: "int (bit_length n) - 1 = int (bit_length n - 1)" by simp
  have "rat_of_nat (2 ^ (bit_length n - 1)) \<le> rat_of_nat n"
    using lo by (simp only: of_nat_le_iff)
  then show "2 powi (int (bit_length n) - 1) \<le> rat_of_nat n"
    unfolding e by simp
  have "rat_of_nat n < rat_of_nat (2 ^ bit_length n)"
    using hi by (simp only: of_nat_less_iff)
  then show "rat_of_nat n < 2 powi (int (bit_length n))" by simp
qed

lemma binade_test:
  "(if 0 \<le> d then b * 2 ^ nat d \<le> a else b \<le> a * 2 ^ nat (- d))
      \<longleftrightarrow> 2 powi d * rat_of_nat b \<le> rat_of_nat a"
proof (cases "0 \<le> d")
  case True
  have "b * 2 ^ nat d \<le> a \<longleftrightarrow> rat_of_nat (b * 2 ^ nat d) \<le> rat_of_nat a"
    by (simp only: of_nat_le_iff)
  then show ?thesis using True by (simp add: power_int_def mult.commute)
next
  case False
  have "b \<le> a * 2 ^ nat (- d) \<longleftrightarrow> rat_of_nat b \<le> rat_of_nat (a * 2 ^ nat (- d))"
    by (simp only: of_nat_le_iff)
  then show ?thesis using False
    by (simp add: power_int_def field_simps)
qed

lemma binade_bounds:
  assumes a: "0 < a" and b: "0 < b"
  shows "2 powi (binade a b) * rat_of_nat b \<le> rat_of_nat a"
    and "rat_of_nat a < 2 powi (binade a b + 1) * rat_of_nat b"
proof -
  define la where "la = int (bit_length a)"
  define lb where "lb = int (bit_length b)"
  define d where "d = la - lb"
  have A: "2 powi (la - 1) \<le> rat_of_nat a" "rat_of_nat a < 2 powi la"
    unfolding la_def using bit_length_bounds_rat [OF a] by simp_all
  have B: "2 powi (lb - 1) \<le> rat_of_nat b" "rat_of_nat b < 2 powi lb"
    unfolding lb_def using bit_length_bounds_rat [OF b] by simp_all
  have bin: "binade a b = (if 2 powi d * rat_of_nat b \<le> rat_of_nat a then d else d - 1)"
    unfolding binade_def Let_def binade_test d_def la_def lb_def by simp
  have s1: "(2::rat) powi la = 2 powi (d + 1) * 2 powi (lb - 1)"
    unfolding d_def by (simp flip: power_int_add)
  have s2: "(2::rat) powi (la - 1) = 2 powi (d - 1) * 2 powi lb"
    unfolding d_def by (simp flip: power_int_add)
  have p: "0 < (2::rat) powi k" for k by simp
  show "2 powi (binade a b) * rat_of_nat b \<le> rat_of_nat a"
  proof (cases "2 powi d * rat_of_nat b \<le> rat_of_nat a")
    case True
    then show ?thesis by (simp add: bin)
  next
    case False
    have "2 powi (d - 1) * rat_of_nat b \<le> 2 powi (d - 1) * 2 powi lb"
      using B(2) p [of "d - 1"] by (simp add: mult_le_cancel_left_pos)
    also have "\<dots> \<le> rat_of_nat a" using A(1) s2 by simp
    finally show ?thesis using False by (simp add: bin)
  qed
  show "rat_of_nat a < 2 powi (binade a b + 1) * rat_of_nat b"
  proof (cases "2 powi d * rat_of_nat b \<le> rat_of_nat a")
    case True
    have "rat_of_nat a < 2 powi (d + 1) * 2 powi (lb - 1)" using A(2) s1 by simp
    also have "\<dots> \<le> 2 powi (d + 1) * rat_of_nat b"
      using B(1) p [of "d + 1"] by (simp add: mult_le_cancel_left_pos)
    finally show ?thesis using True by (simp add: bin)
  next
    case False
    then show ?thesis by (simp add: bin)
  qed
qed

lemma binade_less:
  assumes a: "0 < a" and b: "0 < b" and lt: "rat_of_nat a < 2 powi k * rat_of_nat b"
  shows "binade a b < k"
proof (rule ccontr)
  assume "\<not> binade a b < k"
  then have "(2::rat) powi k \<le> 2 powi (binade a b)"
    by (intro power_int_increasing) simp_all
  then have "2 powi k * rat_of_nat b \<le> 2 powi (binade a b) * rat_of_nat b"
    using b by (simp add: mult_le_cancel_right_pos)
  with binade_bounds(1) [OF a b] lt show False by simp
qed

lemma binade_ge:
  assumes a: "0 < a" and b: "0 < b" and le: "2 powi k * rat_of_nat b \<le> rat_of_nat a"
  shows "k \<le> binade a b"
proof (rule ccontr)
  assume "\<not> k \<le> binade a b"
  then have "(2::rat) powi (binade a b + 1) \<le> 2 powi k"
    by (intro power_int_increasing) simp_all
  then have "2 powi (binade a b + 1) * rat_of_nat b \<le> 2 powi k * rat_of_nat b"
    using b by (simp add: mult_le_cancel_right_pos)
  with binade_bounds(2) [OF a b] le show False by simp
qed

subsection \<open>Rounding to the nearest integer\<close>

lemma div_half_even_bounds:
  assumes "0 < d"
  shows "\<bar>rat_of_nat (div_half_even n d) - rat_of_nat n / rat_of_nat d\<bar> \<le> 1 / 2"
proof -
  define q where "q = n div d"
  define r where "r = n mod d"
  have n: "n = q * d + r" unfolding q_def r_def by simp
  have rd: "r < d" unfolding r_def using assms by simp
  have dpos: "0 < rat_of_nat d" using assms by simp
  have quot: "rat_of_nat n / rat_of_nat d = rat_of_nat q + rat_of_nat r / rat_of_nat d"
    using assms by (simp add: n field_simps)
  have frac0: "0 \<le> rat_of_nat r / rat_of_nat d" by simp
  have frac1: "rat_of_nat r / rat_of_nat d < 1" using rd dpos by simp
  have half1: "2 * r < d \<Longrightarrow> rat_of_nat r / rat_of_nat d \<le> 1 / 2"
  proof -
    assume "2 * r < d"
    then have "rat_of_nat (2 * r) < rat_of_nat d" by (simp only: of_nat_less_iff)
    then show ?thesis using dpos by (simp add: field_simps)
  qed
  have half2: "d < 2 * r \<Longrightarrow> 1 / 2 \<le> rat_of_nat r / rat_of_nat d"
  proof -
    assume "d < 2 * r"
    then have "rat_of_nat d < rat_of_nat (2 * r)" by (simp only: of_nat_less_iff)
    then show ?thesis using dpos by (simp add: field_simps)
  qed
  have half3: "\<not> 2 * r < d \<Longrightarrow> \<not> d < 2 * r \<Longrightarrow> rat_of_nat r / rat_of_nat d = 1 / 2"
  proof -
    assume "\<not> 2 * r < d" "\<not> d < 2 * r"
    then have "d = 2 * r" by simp
    then have "rat_of_nat d = rat_of_nat (2 * r)" by simp
    then show ?thesis using dpos by (simp add: field_simps)
  qed
  have dhe: "div_half_even n d =
      (if 2 * r < d then q else if d < 2 * r then q + 1 else if even q then q else q + 1)"
    unfolding div_half_even_def q_def r_def Let_def by simp
  show ?thesis
    unfolding dhe quot using frac0 frac1 half1 half2 half3
    by (auto simp: abs_le_iff)
qed

lemma div_half_even_tie:
  assumes d: "0 < d"
    and tie: "rat_of_nat n / rat_of_nat d = rat_of_nat (div_half_even n d) + 1 / 2"
  shows "even (div_half_even n d)"
proof -
  define q where "q = n div d"
  define r where "r = n mod d"
  have n: "n = q * d + r" unfolding q_def r_def by simp
  have rd: "r < d" unfolding r_def using d by simp
  have dpos: "0 < rat_of_nat d" using d by simp
  have quot: "rat_of_nat n / rat_of_nat d = rat_of_nat q + rat_of_nat r / rat_of_nat d"
    using d by (simp add: n field_simps)
  have frac1: "rat_of_nat r / rat_of_nat d < 1" using rd dpos by simp
  have frac0: "0 \<le> rat_of_nat r / rat_of_nat d" by simp
  have half1: "2 * r < d \<Longrightarrow> rat_of_nat r / rat_of_nat d < 1 / 2"
  proof -
    assume "2 * r < d"
    then have "rat_of_nat (2 * r) < rat_of_nat d" by (simp only: of_nat_less_iff)
    then show ?thesis using dpos by (simp add: field_simps)
  qed
  have dhe: "div_half_even n d =
      (if 2 * r < d then q else if d < 2 * r then q + 1 else if even q then q else q + 1)"
    unfolding div_half_even_def q_def r_def Let_def by simp
  show ?thesis
    using tie frac0 frac1 half1 unfolding dhe quot
    by (auto split: if_splits)
qed

lemma div_half_even_between:
  assumes d: "0 < d"
  shows "rat_of_nat (div_half_even n d) \<le> rat_of_nat n / rat_of_nat d + 1 / 2"
    and "rat_of_nat n / rat_of_nat d - 1 / 2 \<le> rat_of_nat (div_half_even n d)"
proof -
  have b: "\<bar>rat_of_nat (div_half_even n d) - rat_of_nat n / rat_of_nat d\<bar> \<le> 1 / 2"
    using d by (rule div_half_even_bounds)
  show "rat_of_nat (div_half_even n d) \<le> rat_of_nat n / rat_of_nat d + 1 / 2"
    using b by linarith
  show "rat_of_nat n / rat_of_nat d - 1 / 2 \<le> rat_of_nat (div_half_even n d)"
    using b by linarith
qed

lemma div_half_even_ge:
  assumes d: "0 < d" and K: "even K"
    and le: "rat_of_nat K - 1 / 2 \<le> rat_of_nat n / rat_of_nat d"
  shows "K \<le> div_half_even n d"
proof (rule ccontr)
  assume "\<not> K \<le> div_half_even n d"
  then have lt: "div_half_even n d + 1 \<le> K" by simp
  then have "rat_of_nat (div_half_even n d + 1) \<le> rat_of_nat K"
    by (simp only: of_nat_le_iff)
  then have up: "rat_of_nat (div_half_even n d) + 1 \<le> rat_of_nat K" by simp
  note b = div_half_even_between [OF d, of n]
  have tie: "rat_of_nat n / rat_of_nat d = rat_of_nat (div_half_even n d) + 1 / 2"
    using up b le by linarith
  have "rat_of_nat (div_half_even n d) + 1 = rat_of_nat K"
    using up le tie by linarith
  then have "rat_of_nat (div_half_even n d + 1) = rat_of_nat K" by simp
  then have eq: "div_half_even n d + 1 = K" by (simp only: of_nat_eq_iff)
  have "even (div_half_even n d)" using d tie by (rule div_half_even_tie)
  with eq K show False by auto
qed

lemma div_half_even_less:
  assumes d: "0 < d"
    and lt: "rat_of_nat n / rat_of_nat d < rat_of_nat K - 1 / 2"
  shows "div_half_even n d < K"
proof -
  note b = div_half_even_between [OF d, of n]
  have "rat_of_nat (div_half_even n d) < rat_of_nat K"
    using lt b by linarith
  then show ?thesis by (simp only: of_nat_less_iff)
qed

lemma div_half_even_ge_floor:
  assumes d: "0 < d"
    and le: "rat_of_nat K \<le> rat_of_nat n / rat_of_nat d"
  shows "K \<le> div_half_even n d"
proof (rule ccontr)
  assume "\<not> K \<le> div_half_even n d"
  then have lt: "div_half_even n d + 1 \<le> K" by simp
  then have "rat_of_nat (div_half_even n d + 1) \<le> rat_of_nat K"
    by (simp only: of_nat_le_iff)
  then have up: "rat_of_nat (div_half_even n d) + 1 \<le> rat_of_nat K" by simp
  note b = div_half_even_between [OF d, of n]
  show False using up b le by linarith
qed

subsection \<open>Rounding a quotient to binary64\<close>

lemma round_quot_scaled:
  assumes b: "0 < b"
  shows "round_quot a b = rat_of_nat (div_half_even
           (if 0 \<le> spacing a b then a else a * 2 ^ nat (- spacing a b))
           (if 0 \<le> spacing a b then b * 2 ^ nat (spacing a b) else b)) * 2 powi (spacing a b)"
  unfolding round_quot_def Let_def by simp

lemma round_quot_error:
  assumes a: "0 < a" and b: "0 < b"
  shows "\<bar>round_quot a b - rat_of_nat a / rat_of_nat b\<bar> \<le> 2 powi (spacing a b - 1)"
proof -
  define s where "s = spacing a b"
  define N where "N = (if 0 \<le> s then a else a * 2 ^ nat (- s))"
  define D where "D = (if 0 \<le> s then b * 2 ^ nat s else b)"
  define m where "m = div_half_even N D"
  have Dpos: "0 < D" unfolding D_def using b by simp
  have p: "0 < (2::rat) powi s" by simp
  have quot: "rat_of_nat N / rat_of_nat D = (rat_of_nat a / rat_of_nat b) / 2 powi s"
    unfolding N_def D_def by (simp add: power_int_def field_simps)
  have r: "round_quot a b = rat_of_nat m * 2 powi s"
    unfolding m_def N_def D_def s_def using round_quot_scaled [OF b] by simp
  have half: "\<bar>rat_of_nat m - (rat_of_nat a / rat_of_nat b) / 2 powi s\<bar> \<le> 1 / 2"
    unfolding m_def quot [symmetric] using Dpos by (rule div_half_even_bounds)
  have "(rat_of_nat m - (rat_of_nat a / rat_of_nat b) / 2 powi s) * 2 powi s
      = rat_of_nat m * 2 powi s - rat_of_nat a / rat_of_nat b"
    using p by (simp add: field_simps)
  then have "\<bar>rat_of_nat m * 2 powi s - rat_of_nat a / rat_of_nat b\<bar>
      = \<bar>(rat_of_nat m - (rat_of_nat a / rat_of_nat b) / 2 powi s) * 2 powi s\<bar>"
    by (rule arg_cong [OF sym])
  also have "\<dots> = \<bar>rat_of_nat m - (rat_of_nat a / rat_of_nat b) / 2 powi s\<bar> * 2 powi s"
    using p by (simp only: abs_mult abs_of_pos)
  also have "\<dots> \<le> (1 / 2) * 2 powi s"
    using half p by (simp only: mult_le_cancel_right_pos)
  also have "(1 / 2) * (2::rat) powi s = 2 powi (s - 1)"
    by (simp add: power_int_diff)
  finally show ?thesis unfolding r s_def .
qed

lemma round_quot_no_overflow:
  assumes a: "0 < a" and b: "0 < b" and lt: "rat_of_nat a < 2 ^ 1023 * rat_of_nat b"
  shows "round_quot a b \<le> DBL_MAX"
proof -
  have "binade a b < 1023"
    using a b by (rule binade_less) (use lt in simp)
  then have "spacing a b - 1 \<le> 969" unfolding spacing_def by simp
  then have "(2::rat) powi (spacing a b - 1) \<le> 2 powi 969"
    by (intro power_int_increasing) simp_all
  with round_quot_error [OF a b]
  have "round_quot a b \<le> rat_of_nat a / rat_of_nat b + 2 ^ 969" by simp
  moreover have "rat_of_nat a / rat_of_nat b < 2 ^ 1023"
    using lt b by (simp add: field_simps)
  ultimately have "round_quot a b < 2 ^ 1023 + 2 ^ 969" by simp
  also have "(2::rat) ^ 1023 + 2 ^ 969 \<le> DBL_MAX" by (simp add: DBL_MAX_def)
  finally show ?thesis by simp
qed

lemma round_quot_relative_error:
  assumes a: "0 < a" and b: "0 < b" and normal: "2 powi (- 1022) * rat_of_nat b \<le> rat_of_nat a"
  shows "\<bar>round_quot a b - rat_of_nat a / rat_of_nat b\<bar>
           \<le> rat_of_nat a / rat_of_nat b / 2 ^ 53"
proof -
  have "- 1022 \<le> binade a b" using a b normal by (rule binade_ge)
  then have s: "spacing a b - 1 = binade a b - 53" unfolding spacing_def by simp
  have "(2::rat) powi (binade a b - 53) = 2 powi (binade a b) / 2 ^ 53"
    by (simp add: power_int_diff)
  moreover have "2 powi (binade a b) \<le> rat_of_nat a / rat_of_nat b"
    using binade_bounds(1) [OF a b] b by (simp add: field_simps)
  ultimately have "(2::rat) powi (spacing a b - 1) \<le> rat_of_nat a / rat_of_nat b / 2 ^ 53"
    unfolding s by (simp add: divide_right_mono)
  with round_quot_error [OF a b] show ?thesis by simp
qed

lemma round_quot_top_binade:
  assumes e: "binade a b = 1023"
  shows "round_quot a b = rat_of_nat (div_half_even a (b * 2 ^ 971)) * 2 ^ 971"
  unfolding round_quot_def spacing_def Let_def e by simp

lemma round_quot_huge:
  assumes a: "0 < a" and b: "0 < b" and big: "1024 \<le> binade a b"
  shows "2 ^ 1024 \<le> round_quot a b"
proof -
  define s where "s = binade a b - 52"
  have s0: "0 \<le> s" unfolding s_def using big by simp
  have sp: "spacing a b = s" unfolding spacing_def s_def using big by simp
  define D where "D = b * 2 ^ nat s"
  have Dpos: "0 < D" unfolding D_def using b by simp
  have r: "round_quot a b = rat_of_nat (div_half_even a D) * 2 powi s"
    using round_quot_scaled [OF b, of a] s0 unfolding sp D_def by simp
  have ps: "(2::rat) powi s = 2 ^ nat s" using s0 by (simp add: power_int_def)
  have pe: "(2::rat) powi (binade a b) = 2 ^ 52 * 2 powi s"
    unfolding s_def by (simp add: power_int_diff)
  have "2 ^ 52 * 2 powi s * rat_of_nat b \<le> rat_of_nat a"
    using binade_bounds(1) [OF a b] unfolding pe .
  then have "2 ^ 52 * rat_of_nat D \<le> rat_of_nat a"
    unfolding D_def ps by (simp add: mult.commute mult.left_commute)
  then have "rat_of_nat (2 ^ 52) \<le> rat_of_nat a / rat_of_nat D"
    using Dpos by (simp add: pos_le_divide_eq)
  with Dpos have "2 ^ 52 \<le> div_half_even a D" by (rule div_half_even_ge_floor)
  then have "rat_of_nat (2 ^ 52) \<le> rat_of_nat (div_half_even a D)"
    by (simp only: of_nat_le_iff)
  then have "2 ^ 52 * 2 powi s \<le> rat_of_nat (div_half_even a D) * 2 powi s"
    by (simp add: mult_le_cancel_right_pos)
  then have "2 powi (binade a b) \<le> round_quot a b" unfolding r pe .
  moreover have "(2::rat) powi 1024 \<le> 2 powi (binade a b)"
    using big by (intro power_int_increasing) simp_all
  ultimately show ?thesis by simp
qed

lemma round_quot_overflow_iff:
  assumes a: "0 < a" and b: "0 < b"
  shows "DBL_MAX < round_quot a b \<longleftrightarrow> (2 ^ 1024 - 2 ^ 970) * rat_of_nat b \<le> rat_of_nat a"
proof (cases "rat_of_nat a < 2 ^ 1023 * rat_of_nat b")
  case True
  have "round_quot a b \<le> DBL_MAX" using a b True by (rule round_quot_no_overflow)
  moreover have "(2::rat) ^ 1023 * rat_of_nat b \<le> (2 ^ 1024 - 2 ^ 970) * rat_of_nat b"
    using b by (simp add: mult_le_cancel_right_pos)
  ultimately show ?thesis using True by simp
next
  case low: False
  show ?thesis
  proof (cases "rat_of_nat a < 2 ^ 1024 * rat_of_nat b")
    case True
    have "1023 \<le> binade a b" using a b by (rule binade_ge) (use low in simp)
    moreover have "binade a b < 1024" using a b by (rule binade_less) (use True in simp)
    ultimately have e: "binade a b = 1023" by simp
    define D where "D = b * 2 ^ 971"
    have Dpos: "0 < D" unfolding D_def using b by simp
    have r: "round_quot a b = rat_of_nat (div_half_even a D) * 2 ^ 971"
      unfolding D_def using e by (rule round_quot_top_binade)
    have x: "rat_of_nat a / rat_of_nat D = rat_of_nat a / rat_of_nat b / 2 ^ 971"
      unfolding D_def by simp
    have bpos: "0 < rat_of_nat b" using b by simp
    have thr: "(2 ^ 1024 - 2 ^ 970) * rat_of_nat b \<le> rat_of_nat a
        \<longleftrightarrow> rat_of_nat (2 ^ 53) - 1 / 2 \<le> rat_of_nat a / rat_of_nat D"
    proof -
      have "(2 ^ 1024 - 2 ^ 970) * rat_of_nat b \<le> rat_of_nat a
          \<longleftrightarrow> 2 ^ 1024 - 2 ^ 970 \<le> rat_of_nat a / rat_of_nat b"
        using bpos by (simp only: pos_le_divide_eq)
      also have "\<dots> \<longleftrightarrow> (2 ^ 1024 - 2 ^ 970) / 2 ^ 971 \<le> rat_of_nat a / rat_of_nat b / 2 ^ 971"
        by (simp only: divide_le_cancel) simp
      also have "((2::rat) ^ 1024 - 2 ^ 970) / 2 ^ 971 = rat_of_nat (2 ^ 53) - 1 / 2"
        by simp
      finally show ?thesis unfolding x .
    qed
    show ?thesis
    proof (cases "(2 ^ 1024 - 2 ^ 970) * rat_of_nat b \<le> rat_of_nat a")
      case over: True
      then have "rat_of_nat (2 ^ 53) - 1 / 2 \<le> rat_of_nat a / rat_of_nat D"
        using thr by simp
      with Dpos have "2 ^ 53 \<le> div_half_even a D"
        by (intro div_half_even_ge) simp_all
      then have "rat_of_nat (2 ^ 53) \<le> rat_of_nat (div_half_even a D)"
        by (simp only: of_nat_le_iff)
      then have "2 ^ 53 * 2 ^ 971 \<le> round_quot a b"
        unfolding r by (simp add: mult_le_cancel_right_pos)
      moreover have "DBL_MAX < 2 ^ 53 * 2 ^ 971" by (simp add: DBL_MAX_def)
      ultimately show ?thesis using over by simp
    next
      case under: False
      then have "rat_of_nat a / rat_of_nat D < rat_of_nat (2 ^ 53) - 1 / 2"
        using thr by simp
      with Dpos have "div_half_even a D < 2 ^ 53" by (rule div_half_even_less)
      then have "div_half_even a D \<le> 2 ^ 53 - 1" by simp
      then have "rat_of_nat (div_half_even a D) \<le> rat_of_nat (2 ^ 53 - 1)"
        by (simp only: of_nat_le_iff)
      then have "round_quot a b \<le> rat_of_nat (2 ^ 53 - 1) * 2 ^ 971"
        unfolding r by (simp add: mult_le_cancel_right_pos)
      moreover have "rat_of_nat (2 ^ 53 - 1) * 2 ^ 971 = DBL_MAX" by (simp add: DBL_MAX_def)
      ultimately show ?thesis using under by simp
    qed
  next
    case False
    have "1024 \<le> binade a b" using a b by (rule binade_ge) (use False in simp)
    with a b have "2 ^ 1024 \<le> round_quot a b" by (rule round_quot_huge)
    moreover have "DBL_MAX < 2 ^ 1024" by (simp add: DBL_MAX_def)
    moreover have "(2 ^ 1024 - 2 ^ 970) * rat_of_nat b \<le> 2 ^ 1024 * rat_of_nat b"
      using b by (simp add: mult_le_cancel_right_pos)
    ultimately show ?thesis using False by simp
  qed
qed

section \<open>Facts about the decoder\<close>

lemma from_bytes_little_nonneg: "0 \<le> from_bytes_little bs"
  by (induction bs) simp_all

lemma from_bytes_little_less: "from_bytes_little bs < 256 ^ length bs"
proof (induction bs)
  case Nil
  show ?case by simp
next
  case (Cons b bs)
  have "uint b < 256" using uint_bounded [of b] by simp
  with Cons show ?case by simp
qed

lemma from_bytes_little_zeros:
  "from_bytes_little (replicate n 0 @ bs) = 256 ^ n * from_bytes_little bs"
  by (induction n) simp_all

text \<open>The threshold of \<open>raw / 10\<close>: ten times the midpoint between \<open>DBL_MAX\<close> and \<open>2 ^ 1024\<close>.\<close>

lemma py_truediv_10:
  assumes a: "0 < a"
  shows "py_truediv a 10 =
    (if 10 * (2 ^ 1024 - 2 ^ 970) \<le> a then Inl OverflowError else Inr (round_quot (nat a) 10))"
proof -
  have na: "0 < nat a" using a by simp
  have ra: "rat_of_nat (nat a) = rat_of_int a" using a by simp
  have "DBL_MAX < round_quot (nat a) 10
      \<longleftrightarrow> (2 ^ 1024 - 2 ^ 970) * rat_of_nat 10 \<le> rat_of_nat (nat a)"
    using na by (intro round_quot_overflow_iff) simp_all
  also have "\<dots> \<longleftrightarrow> rat_of_int (10 * (2 ^ 1024 - 2 ^ 970)) \<le> rat_of_int a"
    unfolding ra by (simp add: mult.commute)
  also have "\<dots> \<longleftrightarrow> 10 * (2 ^ 1024 - 2 ^ 970) \<le> a"
    by (simp only: of_int_le_iff)
  finally have ov: "DBL_MAX < round_quot (nat a) 10 \<longleftrightarrow> 10 * (2 ^ 1024 - 2 ^ 970) \<le> a" .
  have "py_truediv a 10 =
      (if DBL_MAX < round_quot (nat a) 10 then Inl OverflowError
       else Inr (round_quot (nat a) 10))"
    using a by (simp add: py_truediv_def Let_def)
  then show ?thesis unfolding ov .
qed

lemma bytes_to_temperature_cases:
  "bytes_to_temperature data =
     (if from_bytes_little data = 0xffff then Inr (PyInt 0)
      else if from_bytes_little data = 0 then Inr (PyFloat 0)
      else if 10 * (2 ^ 1024 - 2 ^ 970) \<le> from_bytes_little data then Inl OverflowError
      else Inr (PyFloat (round_quot (nat (from_bytes_little data)) 10)))"
proof (cases "from_bytes_little data = 0")
  case True
  then show ?thesis by (simp add: bytes_to_temperature_def py_truediv_def)
next
  case False
  then have "0 < from_bytes_little data"
    using from_bytes_little_nonneg [of data] by simp
  then show ?thesis
    using False by (simp add: bytes_to_temperature_def py_truediv_10 Let_def)
qed

lemma two_bytes_value:
  fixes b0 b1 :: byte
  shows "0 \<le> uint b0 + 256 * uint b1" and "uint b0 + 256 * uint b1 < 65536"
proof -
  have "0 \<le> uint b0" "0 \<le> uint b1" by simp_all
  then show "0 \<le> uint b0 + 256 * uint b1" by simp
  have "uint b0 < 256" "uint b1 < 256"
    using uint_bounded [of b0] uint_bounded [of b1] by simp_all
  then show "uint b0 + 256 * uint b1 < 65536" by simp
qed

lemma py_truediv_10_small:
  assumes a: "0 \<le> a" and small: "a < 10 * (2 ^ 1024 - 2 ^ 970)"
  shows "\<exists>x. py_truediv a 10 = Inr x \<and> \<bar>x - rat_of_int a / 10\<bar> \<le> rat_of_int a / 10 / 2 ^ 53"
proof (cases "a = 0")
  case True
  then show ?thesis by (simp add: py_truediv_def)
next
  case False
  with a have pos: "0 < a" by simp
  have na: "0 < nat a" using pos by simp
  have ra: "rat_of_nat (nat a) = rat_of_int a" using pos by simp
  have eq: "py_truediv a 10 = Inr (round_quot (nat a) 10)"
    using py_truediv_10 [OF pos] small by simp
  have "1 \<le> rat_of_nat (nat a)" using na by simp
  moreover have "2 powi (- 1022) * rat_of_nat 10 \<le> 1"
    by (simp add: power_int_minus_divide)
  ultimately have normal: "2 powi (- 1022) * rat_of_nat 10 \<le> rat_of_nat (nat a)" by simp
  have "\<bar>round_quot (nat a) 10 - rat_of_nat (nat a) / rat_of_nat 10\<bar>
      \<le> rat_of_nat (nat a) / rat_of_nat 10 / 2 ^ 53"
    using na _ normal by (rule round_quot_relative_error) simp
  then have "\<bar>round_quot (nat a) 10 - rat_of_int a / 10\<bar> \<le> rat_of_int a / 10 / 2 ^ 53"
    unfolding ra by simp
  with eq show ?thesis by simp
qed

section \<open>The claims about the decoder\<close>

text \<open>
  Claim C2. For every 2-byte input, read as the unsigned little-endian integer
  \<open>v = b0 + 256 * b1\<close>, the decoder returns the integer \<open>0\<close> when \<open>v = 0xFFFF\<close> and
  otherwise the float that Python's \<open>v / 10\<close> evaluates to: the binary64 number nearest
  to \<open>v / 10\<close>, which differs from \<open>v / 10\<close> by at most the fraction \<open>2 ^ -53\<close> of it.
  It never raises on such an input.
\<close>

theorem bytes_to_temperature_two_bytes:
  fixes b0 b1 :: byte
  shows "from_bytes_little [b0, b1] = uint b0 + 256 * uint b1 \<and>
    (uint b0 + 256 * uint b1 = 0xFFFF \<longrightarrow> bytes_to_temperature [b0, b1] = Inr (PyInt 0)) \<and>
    (uint b0 + 256 * uint b1 \<noteq> 0xFFFF \<longrightarrow>
       (\<exists>x. bytes_to_temperature [b0, b1] = Inr (PyFloat x) \<and>
            py_truediv (uint b0 + 256 * uint b1) 10 = Inr x \<and>
            \<bar>x - rat_of_int (uint b0 + 256 * uint b1) / 10\<bar>
              \<le> rat_of_int (uint b0 + 256 * uint b1) / 10 / 2 ^ 53))"
proof -
  define v where "v = uint b0 + 256 * uint b1"
  have raw: "from_bytes_little [b0, b1] = v" unfolding v_def by simp
  have v0: "0 \<le> v" and v1: "v < 65536" unfolding v_def by (rule two_bytes_value)+
  have "v < 10 * (2 ^ 1024 - 2 ^ 970)" using v1 by simp
  with v0 obtain x where x: "py_truediv v 10 = Inr x"
    "\<bar>x - rat_of_int v / 10\<bar> \<le> rat_of_int v / 10 / 2 ^ 53"
    using py_truediv_10_small by blast
  have sentinel: "v = 0xFFFF \<Longrightarrow> bytes_to_temperature [b0, b1] = Inr (PyInt 0)"
    unfolding bytes_to_temperature_def raw by simp
  have reading: "v \<noteq> 0xFFFF \<Longrightarrow> bytes_to_temperature [b0, b1] = Inr (PyFloat x)"
    unfolding bytes_to_temperature_def raw using x(1) by simp
  show ?thesis
    unfolding v_def [symmetric] using raw sentinel reading x by blast
qed

theorem bytes_to_temperature_two_bytes_witness:
  "uint (1::byte) + 256 * uint (0::byte) \<noteq> 0xFFFF \<and>
   bytes_to_temperature [1, 0] = Inr (PyFloat (3602879701896397 / 36028797018963968)) \<and>
   uint (0xFF::byte) + 256 * uint (0xFF::byte) = 0xFFFF \<and>
   bytes_to_temperature [0xFF, 0xFF] = Inr (PyInt 0)"
proof -
  have e: "py_truediv 1 10 = Inr (3602879701896397 / 36028797018963968)"
    by (simp add: truediv_eval)
  have h1: "uint (1::byte) + 256 * uint (0::byte) \<noteq> 0xFFFF" by simp
  have h2: "uint (0xFF::byte) + 256 * uint (0xFF::byte) = 0xFFFF" by simp
  from bytes_to_temperature_two_bytes [of 1 0] h1
  obtain x where x: "bytes_to_temperature [1, 0] = Inr (PyFloat x)"
    "py_truediv (uint (1::byte) + 256 * uint (0::byte)) 10 = Inr x"
    by blast
  from x(2) have "py_truediv 1 10 = Inr x" by simp
  with e have "x = 3602879701896397 / 36028797018963968" by simp
  with x(1) have r1: "bytes_to_temperature [1, 0] =
      Inr (PyFloat (3602879701896397 / 36028797018963968))" by simp
  from bytes_to_temperature_two_bytes [of "0xFF" "0xFF"] h2
  have r2: "bytes_to_temperature [0xFF, 0xFF] = Inr (PyInt 0)" by blast
  show ?thesis using h1 r1 h2 r2 by blast
qed

text \<open>
  Claim C5. The decoder maps the sentinel \<open>0xFFFF\<close> and the reading \<open>0x0000\<close> to the same
  value 0: the sentinel gives the integer \<open>0\<close>, the reading the float \<open>0.0\<close>, which are equal
  under Python's \<open>==\<close>, become the same float under \<open>float()\<close> and so leave the same
  value in the gauge.
\<close>

theorem sentinel_decodes_like_zero:
  "bytes_to_temperature [0xFF, 0xFF] = Inr (PyInt 0) \<and>
   bytes_to_temperature [0x00, 0x00] = Inr (PyFloat 0) \<and>
   py_eq (PyInt 0) (PyFloat 0) \<and>
   py_float (PyInt 0) = py_float (PyFloat 0) \<and>
   temperature_set n (PyInt 0) g = temperature_set n (PyFloat 0) g"
  by (simp add: bytes_to_temperature_def py_truediv_def temperature_set_def)

text \<open>
  Claim C10, as stated, fails: the decoder is not total over byte sequences of every
  length. On the 129 bytes \<open>00 ... 00 0A\<close> the integer is \<open>10 * 2 ^ 1024\<close>, the quotient
  \<open>2 ^ 1024\<close> is beyond the largest float, and \<open>raw / 10\<close> raises \<open>OverflowError\<close>.
\<close>

theorem bytes_to_temperature_overflow_counterexample:
  "bytes_to_temperature (replicate 128 0 @ [0x0A]) = Inl OverflowError"
  by (simp add: bytes_to_temperature_cases from_bytes_little_zeros)

lemma slice_lengths:
  "length (pyslice 0 2 payload) \<le> 2" "length (pyslice 2 4 payload) \<le> 2"
  by (simp_all add: pyslice_def)

text \<open>
  Claim C10, amended. The decoder returns a value exactly when the little-endian integer
  is below \<open>10 * (2 ^ 1024 - 2 ^ 970)\<close>, and raises \<open>OverflowError\<close> exactly from there on;
  so it returns on every input of at most 128 bytes. The empty sequence decodes to
  \<open>0.0\<close>. The handler passes it \<open>data[0:2]\<close> and \<open>data[2:4]\<close>, of at most 2 bytes each, the
  second one empty when the payload has at most 2 bytes.
\<close>

theorem bytes_to_temperature_total_below_overflow:
  "((\<exists>v. bytes_to_temperature data = Inr v)
      \<longleftrightarrow> from_bytes_little data < 10 * (2 ^ 1024 - 2 ^ 970)) \<and>
   (bytes_to_temperature data = Inl OverflowError
      \<longleftrightarrow> 10 * (2 ^ 1024 - 2 ^ 970) \<le> from_bytes_little data) \<and>
   (length data \<le> 128 \<longrightarrow> (\<exists>v. bytes_to_temperature data = Inr v)) \<and>
   bytes_to_temperature [] = Inr (PyFloat 0) \<and>
   length (pyslice 0 2 payload) \<le> 2 \<and> length (pyslice 2 4 payload) \<le> 2 \<and>
   (length payload \<le> 2 \<longrightarrow> pyslice 2 4 payload = [])"
proof -
  have a: "(\<exists>v. bytes_to_temperature data = Inr v)
      \<longleftrightarrow> from_bytes_little data < 10 * (2 ^ 1024 - 2 ^ 970)"
    by (simp add: bytes_to_temperature_cases)
  have b: "bytes_to_temperature data = Inl OverflowError
      \<longleftrightarrow> 10 * (2 ^ 1024 - 2 ^ 970) \<le> from_bytes_little data"
    by (simp add: bytes_to_temperature_cases)
  have c: "\<exists>v. bytes_to_temperature data = Inr v" if len: "length data \<le> 128"
  proof -
    have "(256::int) ^ length data \<le> 256 ^ 128"
      using len by (intro power_increasing) simp_all
    with from_bytes_little_less [of data]
    have "from_bytes_little data < 256 ^ 128" by simp
    also have "(256::int) ^ 128 \<le> 10 * (2 ^ 1024 - 2 ^ 970)" by simp
    finally show ?thesis using a by simp
  qed
  have d: "bytes_to_temperature [] = Inr (PyFloat 0)"
    by (simp add: bytes_to_temperature_cases)
  have e: "length payload \<le> 2 \<longrightarrow> pyslice 2 4 payload = []"
    by (simp add: pyslice_def)
  show ?thesis using a b c d e slice_lengths [of payload] by blast
qed

theorem bytes_to_temperature_total_below_overflow_witness:
  "from_bytes_little [1, 0] < 10 * (2 ^ 1024 - 2 ^ 970) \<and>
   length [1, 0 :: byte] \<le> 128 \<and>
   (\<exists>v. bytes_to_temperature [1, 0] = Inr v) \<and>
   10 * (2 ^ 1024 - 2 ^ 970) \<le> from_bytes_little (replicate 128 0 @ [0x0A]) \<and>
   bytes_to_temperature (replicate 128 0 @ [0x0A]) = Inl OverflowError \<and>
   length [1, 0 :: byte] \<le> 2 \<and> pyslice 2 4 [1, 0 :: byte] = []"
proof -
  have h1: "from_bytes_little [1, 0] < 10 * (2 ^ 1024 - 2 ^ 970)" by simp
  have h2: "length [1, 0 :: byte] \<le> 128" by simp
  have h3: "10 * (2 ^ 1024 - 2 ^ 970) \<le> from_bytes_little (replicate 128 0 @ [0x0A])"
    by (simp add: from_bytes_little_zeros)
  have h4: "length [1, 0 :: byte] \<le> 2" by simp
  note t1 = bytes_to_temperature_total_below_overflow [of "[1, 0]" "[1, 0]"]
  note t2 = bytes_to_temperature_total_below_overflow [of "replicate 128 0 @ [0x0A]" "[1, 0]"]
  have r1: "\<exists>v. bytes_to_temperature [1, 0] = Inr v" using t1 h2 by blast
  have r2: "bytes_to_temperature (replicate 128 0 @ [0x0A]) = Inl OverflowError"
    using t2 h3 by blast
  have r3: "pyslice 2 4 [1, 0 :: byte] = []" using t1 h4 by blast
  show ?thesis using h1 h2 h3 h4 r1 r2 r3 by blast
qed

section \<open>Facts about the notification handler\<close>

lemma bytes_to_temperature_window:
  assumes "length data \<le> 2"
  shows "\<exists>t x. bytes_to_temperature data = Inr t \<and> py_float t = Inr x \<and> py_eq (PyFloat x) t"
proof -
  have "(256::int) ^ length data \<le> 256 ^ 2"
    using assms by (intro power_increasing) simp_all
  with from_bytes_little_less [of data]
  have small: "from_bytes_little data < 65536" by simp
  then have "\<not> 10 * (2 ^ 1024 - 2 ^ 970) \<le> from_bytes_little data" by simp
  then have "bytes_to_temperature data = Inr (PyInt 0) \<or>
      (\<exists>x. bytes_to_temperature data = Inr (PyFloat x))"
    by (simp add: bytes_to_temperature_cases)
  then show ?thesis
  proof
    assume "bytes_to_temperature data = Inr (PyInt 0)"
    moreover have "py_float (PyInt 0) = Inr 0" by (simp add: py_truediv_def)
    moreover have "py_eq (PyFloat 0) (PyInt 0)" by simp
    ultimately show ?thesis by blast
  next
    assume "\<exists>x. bytes_to_temperature data = Inr (PyFloat x)"
    then obtain x where "bytes_to_temperature data = Inr (PyFloat x)" ..
    moreover have "py_float (PyFloat x) = Inr x" by simp
    moreover have "py_eq (PyFloat x) (PyFloat x)" by simp
    ultimately show ?thesis by blast
  qed
qed

lemma data_notify_handler_effect:
  "\<exists>t1 t2 x1 x2.
     bytes_to_temperature (pyslice 0 2 data) = Inr t1 \<and> py_float t1 = Inr x1 \<and>
     py_eq (PyFloat x1) t1 \<and>
     bytes_to_temperature (pyslice 2 4 data) = Inr t2 \<and> py_float t2 = Inr x2 \<and>
     py_eq (PyFloat x2) t2 \<and>
     data_notify_handler a now d data g =
       Inr \<lparr>temperature = (temperature g)
                (label_value (probe1_name a) \<mapsto> x1, label_value (probe2_name a) \<mapsto> x2),
            last_received = now,
            logger = logger g @ [LogNotify d data, LogTemperatures t1 t2]\<rparr>"
proof -
  obtain t1 x1 where 1: "bytes_to_temperature (pyslice 0 2 data) = Inr t1"
      "py_float t1 = Inr x1" "py_eq (PyFloat x1) t1"
    using bytes_to_temperature_window [OF slice_lengths(1), of data] by blast
  obtain t2 x2 where 2: "bytes_to_temperature (pyslice 2 4 data) = Inr t2"
      "py_float t2 = Inr x2" "py_eq (PyFloat x2) t2"
    using bytes_to_temperature_window [OF slice_lengths(2), of data] by blast
  have "data_notify_handler a now d data g =
       Inr \<lparr>temperature = (temperature g)
                (label_value (probe1_name a) \<mapsto> x1, label_value (probe2_name a) \<mapsto> x2),
            last_received = now,
            logger = logger g @ [LogNotify d data, LogTemperatures t1 t2]\<rparr>"
    unfolding data_notify_handler_def Let_def 1(1) 2(1)
    by (simp add: temperature_set_def 1(2) 2(2) logger_emit_def set_to_current_time_def)
  with 1 2 show ?thesis by blast
qed

lemma decode_01: "bytes_to_temperature [1, 0] = Inr (PyFloat (3602879701896397 / 36028797018963968))"
  by (simp add: bytes_to_temperature_def truediv_eval)

lemma decode_02: "bytes_to_temperature [2, 0] = Inr (PyFloat (3602879701896397 / 18014398509481984))"
  by (simp add: bytes_to_temperature_def truediv_eval)

lemma decode_empty: "bytes_to_temperature [] = Inr (PyFloat 0)"
  by (simp add: bytes_to_temperature_def py_truediv_def)

lemmas handler_eval = data_notify_handler_def pyslice_def temperature_set_def
  set_to_current_time_def logger_emit_def label_value_def decode_01 decode_02 decode_empty

lemma slice_four:
  assumes "length b = 4"
  shows "length (pyslice 0 2 b) = 2" "length (pyslice 2 4 b) = 2" "pyslice 0 2 b @ pyslice 2 4 b = b"
proof -
  show "length (pyslice 0 2 b) = 2" "length (pyslice 2 4 b) = 2"
    using assms by (simp_all add: pyslice_def)
  have "take 2 (drop 2 b) = drop 2 b" using assms by simp
  then show "pyslice 0 2 b @ pyslice 2 4 b = b" by (simp add: pyslice_def)
qed

section \<open>The claims about the notification handler\<close>

text \<open>
  Claim C1, as stated, fails: a payload whose length is not 4 does not leave the registry
  as it was. The handler has no length check. On the 2-byte payload \<open>01 00\<close>, with the
  gauges at 21 and 22 and the timestamp at 100, it returns without raising, and then the
  first gauge holds \<open>0.1\<close>, the second \<open>0.0\<close> (the decoding of the empty window
  \<open>data[2:4]\<close>) and the timestamp the current time 200.
\<close>

theorem short_payload_overwrites_registry:
  "length [1, 0 :: byte] \<noteq> 4 \<and>
   data_notify_handler
     \<lparr>address = Some ''AA:BB'', probe1_name = Some ''probe1'', probe2_name = Some ''probe2'',
      debug = False\<rparr>
     200 ''d'' [1, 0]
     \<lparr>temperature = [''probe1'' \<mapsto> 21, ''probe2'' \<mapsto> 22], last_received = 100, logger = []\<rparr>
   = Inr \<lparr>temperature = [''probe1'' \<mapsto> 3602879701896397 / 36028797018963968, ''probe2'' \<mapsto> 0],
          last_received = 200,
          logger = [LogNotify ''d'' [1, 0],
                    LogTemperatures (PyFloat (3602879701896397 / 36028797018963968)) (PyFloat 0)]\<rparr> \<and>
   [''probe1'' \<mapsto> 3602879701896397 / 36028797018963968, ''probe2'' \<mapsto> 0] ''probe2''
     \<noteq> [''probe1'' \<mapsto> 21, ''probe2'' \<mapsto> (22 :: double)] ''probe2'' \<and>
   (200 :: double) \<noteq> 100"
  by (simp add: handler_eval)

text \<open>
  Claim C1, amended. For every payload whose length is not 4 the handler does not raise,
  and it does write the registry: the gauge child of the probe-1 label is set to the
  decoding of \<open>data[0:2]\<close>, then that of the probe-2 label to the decoding of \<open>data[2:4]\<close>
  (a window cut short by the end of the payload is decoded as it is, the empty one to
  \<open>0.0\<close>), the timestamp is set to the current time, and no other gauge child changes.
\<close>

theorem data_notify_handler_any_length:
  "length data \<noteq> 4 \<longrightarrow>
     (\<exists>t1 t2 x1 x2 g'.
        bytes_to_temperature (pyslice 0 2 data) = Inr t1 \<and> py_float t1 = Inr x1 \<and>
        bytes_to_temperature (pyslice 2 4 data) = Inr t2 \<and> py_float t2 = Inr x2 \<and>
        data_notify_handler a now d data g = Inr g' \<and>
        temperature g' = (temperature g)
          (label_value (probe1_name a) \<mapsto> x1, label_value (probe2_name a) \<mapsto> x2) \<and>
        last_received g' = now)"
proof
  assume "length data \<noteq> 4"
  from data_notify_handler_effect [of data a now d g]
  obtain t1 t2 x1 x2 g' where
    t: "bytes_to_temperature (pyslice 0 2 data) = Inr t1" "py_float t1 = Inr x1"
      "bytes_to_temperature (pyslice 2 4 data) = Inr t2" "py_float t2 = Inr x2" and
    g': "g' = \<lparr>temperature = (temperature g)
                (label_value (probe1_name a) \<mapsto> x1, label_value (probe2_name a) \<mapsto> x2),
            last_received = now,
            logger = logger g @ [LogNotify d data, LogTemperatures t1 t2]\<rparr>" and
    h: "data_notify_handler a now d data g = Inr g'"
    by blast
  have "temperature g' = (temperature g)
          (label_value (probe1_name a) \<mapsto> x1, label_value (probe2_name a) \<mapsto> x2)"
    and "last_received g' = now"
    unfolding g' by simp_all
  with t h show "\<exists>t1 t2 x1 x2 g'.
        bytes_to_temperature (pyslice 0 2 data) = Inr t1 \<and> py_float t1 = Inr x1 \<and>
        bytes_to_temperature (pyslice 2 4 data) = Inr t2 \<and> py_float t2 = Inr x2 \<and>
        data_notify_handler a now d data g = Inr g' \<and>
        temperature g' = (temperature g)
          (label_value (probe1_name a) \<mapsto> x1, label_value (probe2_name a) \<mapsto> x2) \<and>
        last_received g' = now"
    by blast
qed

theorem data_notify_handler_any_length_witness:
  "length [1, 0 :: byte] \<noteq> 4 \<and>
   (\<exists>g'. data_notify_handler
       \<lparr>address = Some ''AA:BB'', probe1_name = Some ''probe1'', probe2_name = Some ''probe2'',
        debug = False\<rparr>
       200 ''d'' [1, 0]
       \<lparr>temperature = [''probe1'' \<mapsto> 21, ''probe2'' \<mapsto> 22], last_received = 100, logger = []\<rparr>
     = Inr g' \<and>
     temperature g' = [''probe1'' \<mapsto> 3602879701896397 / 36028797018963968, ''probe2'' \<mapsto> 0] \<and>
     last_received g' = 200)"
proof -
  have h: "length [1, 0 :: byte] \<noteq> 4" by simp
  from data_notify_handler_any_length [of "[1, 0]"
      "\<lparr>address = Some ''AA:BB'', probe1_name = Some ''probe1'', probe2_name = Some ''probe2'',
        debug = False\<rparr>" 200 "''d''"
      "\<lparr>temperature = [''probe1'' \<mapsto> 21, ''probe2'' \<mapsto> 22], last_received = 100, logger = []\<rparr>"] h
  obtain t1 t2 x1 x2 g' where
    t1: "bytes_to_temperature (pyslice 0 2 [1, 0]) = Inr t1" and x1: "py_float t1 = Inr x1" and
    t2: "bytes_to_temperature (pyslice 2 4 [1, 0]) = Inr t2" and x2: "py_float t2 = Inr x2" and
    g': "data_notify_handler
       \<lparr>address = Some ''AA:BB'', probe1_name = Some ''probe1'', probe2_name = Some ''probe2'',
        debug = False\<rparr>
       200 ''d'' [1, 0]
       \<lparr>temperature = [''probe1'' \<mapsto> 21, ''probe2'' \<mapsto> 22], last_received = 100, logger = []\<rparr>
     = Inr g'" and
    m: "temperature g' = (temperature
       \<lparr>temperature = [''probe1'' \<mapsto> 21, ''probe2'' \<mapsto> 22], last_received = 100, logger = []\<rparr>)
          (label_value (probe1_name \<lparr>address = Some ''AA:BB'', probe1_name = Some ''probe1'', probe2_name = Some ''probe2'',
        debug = False\<rparr>) \<mapsto> x1, label_value (probe2_name \<lparr>address = Some ''AA:BB'', probe1_name = Some ''probe1'', probe2_name = Some ''probe2'',
        debug = False\<rparr>) \<mapsto> x2)" and
    l: "last_received g' = 200"
    by blast
  from t1 have "t1 = PyFloat (3602879701896397 / 36028797018963968)"
    by (simp add: pyslice_def decode_01)
  with x1 have v1: "x1 = 3602879701896397 / 36028797018963968" by simp
  from t2 have "t2 = PyFloat 0" by (simp add: pyslice_def decode_empty)
  with x2 have v2: "x2 = 0" by simp
  have "temperature g' = [''probe1'' \<mapsto> 3602879701896397 / 36028797018963968, ''probe2'' \<mapsto> 0]"
    unfolding m v1 v2 by (simp add: label_value_def)
  with h g' l show ?thesis by blast
qed

text \<open>
  Claim C3, as stated, fails when the two configured probe labels are the same string
  (both options given the same name, or neither given, which makes both label values
  \<open>'None'\<close>): the two writes go to one gauge child, and after the payload \<open>01 00 02 00\<close>
  the probe-1 label holds \<open>0.2\<close>, the decoding of \<open>b[2:4]\<close>, while \<open>b[0:2]\<close> decodes to
  \<open>0.1\<close>.
\<close>

theorem equal_labels_lose_probe1:
  "length [1, 0, 2, 0 :: byte] = 4 \<and>
   bytes_to_temperature (pyslice 0 2 [1, 0, 2, 0])
     = Inr (PyFloat (3602879701896397 / 36028797018963968)) \<and>
   data_notify_handler
     \<lparr>address = Some ''AA:BB'', probe1_name = Some ''probe'', probe2_name = Some ''probe'',
      debug = False\<rparr>
     200 ''d'' [1, 0, 2, 0]
     \<lparr>temperature = Map.empty, last_received = 0, logger = []\<rparr>
   = Inr \<lparr>temperature = [''probe'' \<mapsto> 3602879701896397 / 18014398509481984],
          last_received = 200,
          logger = [LogNotify ''d'' [1, 0, 2, 0],
                    LogTemperatures (PyFloat (3602879701896397 / 36028797018963968))
                      (PyFloat (3602879701896397 / 18014398509481984))]\<rparr> \<and>
   \<not> py_eq (PyFloat (3602879701896397 / 18014398509481984))
          (PyFloat (3602879701896397 / 36028797018963968))"
  by (simp add: handler_eval)

text \<open>
  Claim C3, amended. For every 4-byte payload \<open>b\<close> the handler returns without raising;
  afterwards the registry holds the decoding of \<open>b[2:4]\<close> under the probe-2 label and,
  when the two labels differ, the decoding of \<open>b[0:2]\<close> under the probe-1 label (the
  value stored is \<open>float\<close> of the decoded one, equal to it under \<open>==\<close>), and the
  timestamp is the current time; a later call made at the clock reading \<open>now'\<close> sets it
  to \<open>now'\<close>, so it does not go back when the clock does not.
\<close>

theorem data_notify_handler_four_bytes:
  "length b = 4 \<longrightarrow>
     length (pyslice 0 2 b) = 2 \<and> length (pyslice 2 4 b) = 2 \<and> pyslice 0 2 b @ pyslice 2 4 b = b \<and>
     (\<exists>t1 t2 x1 x2 g'.
        bytes_to_temperature (pyslice 0 2 b) = Inr t1 \<and> py_float t1 = Inr x1 \<and>
        py_eq (PyFloat x1) t1 \<and>
        bytes_to_temperature (pyslice 2 4 b) = Inr t2 \<and> py_float t2 = Inr x2 \<and>
        py_eq (PyFloat x2) t2 \<and>
        data_notify_handler a now d b g = Inr g' \<and>
        temperature g' (label_value (probe2_name a)) = Some x2 \<and>
        (label_value (probe1_name a) \<noteq> label_value (probe2_name a) \<longrightarrow>
           temperature g' (label_value (probe1_name a)) = Some x1) \<and>
        last_received g' = now \<and>
        (\<forall>now' d' b'. \<exists>g''.
           data_notify_handler a now' d' b' g' = Inr g'' \<and> last_received g'' = now' \<and>
           (now \<le> now' \<longrightarrow> last_received g' \<le> last_received g'')))"
proof
  assume len: "length b = 4"
  from data_notify_handler_effect [of b a now d g]
  obtain t1 t2 x1 x2 g' where
    t: "bytes_to_temperature (pyslice 0 2 b) = Inr t1" "py_float t1 = Inr x1"
      "py_eq (PyFloat x1) t1"
      "bytes_to_temperature (pyslice 2 4 b) = Inr t2" "py_float t2 = Inr x2"
      "py_eq (PyFloat x2) t2" and
    g': "g' = \<lparr>temperature = (temperature g)
                (label_value (probe1_name a) \<mapsto> x1, label_value (probe2_name a) \<mapsto> x2),
            last_received = now,
            logger = logger g @ [LogNotify d b, LogTemperatures t1 t2]\<rparr>" and
    h: "data_notify_handler a now d b g = Inr g'"
    by blast
  have p2: "temperature g' (label_value (probe2_name a)) = Some x2"
    unfolding g' by simp
  have p1: "label_value (probe1_name a) \<noteq> label_value (probe2_name a) \<longrightarrow>
      temperature g' (label_value (probe1_name a)) = Some x1"
    unfolding g' by simp
  have ts: "last_received g' = now" unfolding g' by simp
  have next_call: "\<exists>g''. data_notify_handler a now' d' b' g' = Inr g'' \<and>
      last_received g'' = now' \<and> (now \<le> now' \<longrightarrow> last_received g' \<le> last_received g'')"
    for now' d' b'
  proof -
    from data_notify_handler_effect [of b' a now' d' g']
    obtain g'' where "data_notify_handler a now' d' b' g' = Inr g''" "last_received g'' = now'"
      by force
    with ts show ?thesis by auto
  qed
  show "length (pyslice 0 2 b) = 2 \<and> length (pyslice 2 4 b) = 2 \<and> pyslice 0 2 b @ pyslice 2 4 b = b \<and>
     (\<exists>t1 t2 x1 x2 g'.
        bytes_to_temperature (pyslice 0 2 b) = Inr t1 \<and> py_float t1 = Inr x1 \<and>
        py_eq (PyFloat x1) t1 \<and>
        bytes_to_temperature (pyslice 2 4 b) = Inr t2 \<and> py_float t2 = Inr x2 \<and>
        py_eq (PyFloat x2) t2 \<and>
        data_notify_handler a now d b g = Inr g' \<and>
        temperature g' (label_value (probe2_name a)) = Some x2 \<and>
        (label_value (probe1_name a) \<noteq> label_value (probe2_name a) \<longrightarrow>
           temperature g' (label_value (probe1_name a)) = Some x1) \<and>
        last_received g' = now \<and>
        (\<forall>now' d' b'. \<exists>g''.
           data_notify_handler a now' d' b' g' = Inr g'' \<and> last_received g'' = now' \<and>
           (now \<le> now' \<longrightarrow> last_received g' \<le> last_received g'')))"
    using slice_four [OF len] t h p1 p2 ts next_call by blast
qed

theorem data_notify_handler_four_bytes_witness:
  "length [1, 0, 2, 0 :: byte] = 4 \<and>
   label_value (Some ''probe1'') \<noteq> label_value (Some ''probe2'') \<and>
   (200 :: double) \<le> 205 \<and>
   (\<exists>g' g''.
      data_notify_handler
        \<lparr>address = Some ''AA:BB'', probe1_name = Some ''probe1'', probe2_name = Some ''probe2'',
         debug = False\<rparr>
        200 ''d'' [1, 0, 2, 0]
        \<lparr>temperature = Map.empty, last_received = 0, logger = []\<rparr> = Inr g' \<and>
      temperature g' ''probe1'' = Some (3602879701896397 / 36028797018963968) \<and>
      temperature g' ''probe2'' = Some (3602879701896397 / 18014398509481984) \<and>
      last_received g' = 200 \<and>
      data_notify_handler
        \<lparr>address = Some ''AA:BB'', probe1_name = Some ''probe1'', probe2_name = Some ''probe2'',
         debug = False\<rparr>
        205 ''d'' [2, 0, 1, 0] g' = Inr g'' \<and>
      last_received g'' = 205 \<and> last_received g' \<le> last_received g'')"
proof -
  define A where "A = \<lparr>address = Some ''AA:BB'', probe1_name = Some ''probe1'',
    probe2_name = Some ''probe2'', debug = False\<rparr>"
  define G where "G = \<lparr>temperature = Map.empty, last_received = 0, logger = []\<rparr>"
  have h1: "length [1, 0, 2, 0 :: byte] = 4" by simp
  have h2: "label_value (Some ''probe1'') \<noteq> label_value (Some ''probe2'')"
    by (simp add: label_value_def)
  have h3: "(200 :: double) \<le> 205" by simp
  have l1: "label_value (probe1_name A) = ''probe1''" and l2: "label_value (probe2_name A) = ''probe2''"
    by (simp_all add: A_def label_value_def)
  from data_notify_handler_four_bytes [of "[1, 0, 2, 0]" A 200 "''d''" G] h1
  obtain t1 t2 x1 x2 g' where
    t1: "bytes_to_temperature (pyslice 0 2 [1, 0, 2, 0]) = Inr t1" and x1: "py_float t1 = Inr x1" and
    t2: "bytes_to_temperature (pyslice 2 4 [1, 0, 2, 0]) = Inr t2" and x2: "py_float t2 = Inr x2" and
    g': "data_notify_handler A 200 ''d'' [1, 0, 2, 0] G = Inr g'" and
    p2: "temperature g' (label_value (probe2_name A)) = Some x2" and
    p1: "label_value (probe1_name A) \<noteq> label_value (probe2_name A) \<longrightarrow>
           temperature g' (label_value (probe1_name A)) = Some x1" and
    ts: "last_received g' = 200" and
    nxt: "\<forall>now' d' b'. \<exists>g''.
           data_notify_handler A now' d' b' g' = Inr g'' \<and> last_received g'' = now' \<and>
           (200 \<le> now' \<longrightarrow> last_received g' \<le> last_received g'')"
    by blast
  from t1 have "t1 = PyFloat (3602879701896397 / 36028797018963968)"
    by (simp add: pyslice_def decode_01)
  with x1 have v1: "x1 = 3602879701896397 / 36028797018963968" by simp
  from t2 have "t2 = PyFloat (3602879701896397 / 18014398509481984)"
    by (simp add: pyslice_def decode_02)
  with x2 have v2: "x2 = 3602879701896397 / 18014398509481984" by simp
  have r1: "temperature g' ''probe1'' = Some (3602879701896397 / 36028797018963968)"
    using p1 unfolding l1 l2 v1 by simp
  have r2: "temperature g' ''probe2'' = Some (3602879701896397 / 18014398509481984)"
    using p2 unfolding l2 v2 .
  from nxt obtain g'' where
    "data_notify_handler A 205 ''d'' [2, 0, 1, 0] g' = Inr g''" "last_received g'' = 205"
    "(200::double) \<le> 205 \<longrightarrow> last_received g' \<le> last_received g''"
    by blast
  with h3 have r3: "data_notify_handler A 205 ''d'' [2, 0, 1, 0] g' = Inr g'' \<and>
      last_received g'' = 205 \<and> last_received g' \<le> last_received g''"
    by blast
  show ?thesis
    using h1 h2 h3 g' r1 r2 ts r3 unfolding A_def G_def by blast
qed

section \<open>Facts about the statements over the store\<close>

lemmas stmt_defs = py_bind_def py_return_def int_from_bytes_def true_divide_def

lemma bytes_to_temperature_stmts_run:
  "bytes_to_temperature_stmts data s = (bytes_to_temperature (heap s data), s)"
  by (simp add: bytes_to_temperature_stmts_def bytes_to_temperature_def stmt_defs Let_def
      split: sum.split)

text \<open>
  The statements of the handler do to the globals what \<open>data_notify_handler\<close> says, and
  leave every object that existed before the call, the payload among them, as it was.
\<close>

lemma data_notify_handler_stmts_run:
  assumes alloc: "data < next_free s"
  shows "\<exists>g'. data_notify_handler a now description (heap s data) (module s) = Inr g' \<and>
     data_notify_handler_stmts a now description data s =
       (Inr (),
        \<lparr>heap = (heap s)(next_free s := pyslice 0 2 (heap s data),
                        Suc (next_free s) := pyslice 2 4 (heap s data)),
         next_free = Suc (Suc (next_free s)),
         module = g'\<rparr>)"
proof -
  define payload where "payload = heap s data"
  from data_notify_handler_effect [of payload a now description "module s"]
  obtain t1 t2 x1 x2 where
    t1: "bytes_to_temperature (pyslice 0 2 payload) = Inr t1" and x1: "py_float t1 = Inr x1" and
    t2: "bytes_to_temperature (pyslice 2 4 payload) = Inr t2" and x2: "py_float t2 = Inr x2" and
    h: "data_notify_handler a now description payload (module s) =
       Inr \<lparr>temperature = (temperature (module s))
                (label_value (probe1_name a) \<mapsto> x1, label_value (probe2_name a) \<mapsto> x2),
            last_received = now,
            logger = logger (module s) @ [LogNotify description payload, LogTemperatures t1 t2]\<rparr>"
    by blast
  have ne: "data \<noteq> next_free s" using alloc by simp
  have "data_notify_handler_stmts a now description data s =
       (Inr (),
        \<lparr>heap = (heap s)(next_free s := pyslice 0 2 (heap s data),
                        Suc (next_free s) := pyslice 2 4 (heap s data)),
         next_free = Suc (Suc (next_free s)),
         module = \<lparr>temperature = (temperature (module s))
                (label_value (probe1_name a) \<mapsto> x1, label_value (probe2_name a) \<mapsto> x2),
            last_received = now,
            logger = logger (module s) @ [LogNotify description payload, LogTemperatures t1 t2]\<rparr>\<rparr>)"
    unfolding data_notify_handler_stmts_def
    using t1 t2 x1 x2 ne
    by (simp add: py_bind_def on_module_def getslice_def bytes_to_temperature_stmts_run
        temperature_set_def logger_emit_def set_to_current_time_def payload_def)
  with h show ?thesis unfolding payload_def by blast
qed

text \<open>Not every statement leaves the store alone: the handler always writes the globals.\<close>

lemma data_notify_handler_stmts_writes:
  assumes "data < next_free s"
  shows "module (snd (data_notify_handler_stmts a now description data s)) \<noteq> module s"
proof -
  from data_notify_handler_stmts_run [OF assms, of a now description]
  obtain g' where h: "data_notify_handler a now description (heap s data) (module s) = Inr g'"
    and m: "module (snd (data_notify_handler_stmts a now description data s)) = g'"
    by auto
  from data_notify_handler_effect [of "heap s data" a now description "module s"] h
  obtain t1 t2 where "logger g' =
      logger (module s) @ [LogNotify description (heap s data), LogTemperatures t1 t2]"
    by auto
  then have "logger g' \<noteq> logger (module s)" by simp
  then show ?thesis unfolding m by auto
qed

section \<open>The claim about the purity of the decoder\<close>

text \<open>
  Claim C9. The decoder is pure and deterministic. Run as statements on the reference to
  its argument, in any store, it gives back the store it was given: the bytes of the
  argument, every other object and the globals of the module are untouched. What it
  returns is determined by the bytes of the argument alone: it is the value of
  \<open>bytes_to_temperature\<close> on them, a second call right after the first returns the same,
  and so does a call in another store, on another object, that holds the same bytes.
\<close>

theorem bytes_to_temperature_pure:
  "snd (bytes_to_temperature_stmts data s) = s \<and>
   fst (bytes_to_temperature_stmts data s) = bytes_to_temperature (heap s data) \<and>
   fst (bytes_to_temperature_stmts data (snd (bytes_to_temperature_stmts data s)))
     = fst (bytes_to_temperature_stmts data s) \<and>
   (heap s data = heap s' data' \<longrightarrow>
      fst (bytes_to_temperature_stmts data s) = fst (bytes_to_temperature_stmts data' s'))"
  by (simp add: bytes_to_temperature_stmts_run)

theorem bytes_to_temperature_pure_witness:
  "heap \<lparr>heap = (\<lambda>_. [])(0 := [1, 0]), next_free = 1,
         module = \<lparr>temperature = Map.empty, last_received = 0, logger = []\<rparr>\<rparr> 0
     = heap \<lparr>heap = (\<lambda>_. [])(7 := [1, 0]), next_free = 8,
         module = \<lparr>temperature = [''probe1'' \<mapsto> 21], last_received = 100,
                    logger = [LogInfo ''Connected'']\<rparr>\<rparr> 7 \<and>
   fst (bytes_to_temperature_stmts 7
          \<lparr>heap = (\<lambda>_. [])(7 := [1, 0]), next_free = 8,
           module = \<lparr>temperature = [''probe1'' \<mapsto> 21], last_received = 100,
                      logger = [LogInfo ''Connected'']\<rparr>\<rparr>)
     = Inr (PyFloat (3602879701896397 / 36028797018963968)) \<and>
   snd (bytes_to_temperature_stmts 7
          \<lparr>heap = (\<lambda>_. [])(7 := [1, 0]), next_free = 8,
           module = \<lparr>temperature = [''probe1'' \<mapsto> 21], last_received = 100,
                      logger = [LogInfo ''Connected'']\<rparr>\<rparr>)
     = \<lparr>heap = (\<lambda>_. [])(7 := [1, 0]), next_free = 8,
        module = \<lparr>temperature = [''probe1'' \<mapsto> 21], last_received = 100,
                   logger = [LogInfo ''Connected'']\<rparr>\<rparr>"
proof -
  define S1 where "S1 = \<lparr>heap = (\<lambda>_. [])(0 := [1, 0 :: byte]), next_free = 1,
         module = \<lparr>temperature = Map.empty, last_received = 0, logger = []\<rparr>\<rparr>"
  define S2 where "S2 = \<lparr>heap = (\<lambda>_. [])(7 := [1, 0 :: byte]), next_free = 8,
         module = \<lparr>temperature = [''probe1'' \<mapsto> 21], last_received = 100,
                    logger = [LogInfo ''Connected'']\<rparr>\<rparr>"
  have h: "heap S1 0 = heap S2 7" by (simp add: S1_def S2_def)
  note t = bytes_to_temperature_pure [where data = 0 and s = S1 and data' = 7 and s' = S2]
  note u = bytes_to_temperature_pure [where data = 7 and s = S2 and data' = 7 and s' = S2]
  have "fst (bytes_to_temperature_stmts 0 S1) = bytes_to_temperature (heap S1 0)"
    using t by blast
  also have "heap S1 0 = [1, 0]" by (simp add: S1_def)
  finally have r1: "fst (bytes_to_temperature_stmts 0 S1)
      = Inr (PyFloat (3602879701896397 / 36028797018963968))"
    by (simp add: decode_01)
  have "fst (bytes_to_temperature_stmts 0 S1) = fst (bytes_to_temperature_stmts 7 S2)"
    using t h by blast
  with r1 have r2: "fst (bytes_to_temperature_stmts 7 S2)
      = Inr (PyFloat (3602879701896397 / 36028797018963968))"
    by simp
  have r3: "snd (bytes_to_temperature_stmts 7 S2) = S2" using u by blast
  show ?thesis using h r2 r3 unfolding S1_def S2_def by blast
qed

section \<open>Facts about the connection supervisor\<close>

lemmas step_defs = loop_top_def issue_def info_def except_Exception_def aexit_def
  except_KeyboardInterrupt_def logger_emit_def

lemma resume_gauges:
  "temperature (env (resume a p r s)) = temperature (env s) \<and>
   last_received (env (resume a p r s)) = last_received (env s)"
  by (induction a p r s rule: resume.induct) (simp_all add: step_defs)

lemma main_step_gauges:
  "temperature (env (main_step a s r)) = temperature (env s) \<and>
   last_received (env (main_step a s r)) = last_received (env s)"
  by (simp add: main_step_def resume_gauges split: pc.split)

lemma main_run_gauges:
  "temperature (env (main_run a s rs)) = temperature (env s) \<and>
   last_received (env (main_run a s rs)) = last_received (env s)"
  unfolding main_run_def
  by (induction rs arbitrary: s) (simp_all add: main_step_gauges)

text \<open>What one resumption adds to the trace: exactly one call, unless \<open>main\<close> ends.\<close>

lemma resume_trace:
  "\<not> interrupt p r \<Longrightarrow> \<forall>e. p \<noteq> Terminated e \<Longrightarrow> \<forall>e. p = AtExit (Some e) \<longrightarrow> is_Exception e \<Longrightarrow>
   (\<exists>c. trace (resume a p r s) = trace s @ [Call c]) \<and>
   (\<forall>e. pc (resume a p r s) \<noteq> Terminated e) \<and>
   (\<forall>e. pc (resume a p r s) = AtExit (Some e) \<longrightarrow> is_Exception e)"
  by (induction a p r s rule: resume.induct) (simp_all add: step_defs)

lemma main_step_resume:
  "\<forall>e. pc s \<noteq> Terminated e \<Longrightarrow>
    main_step a s r = resume a (pc s) r (s\<lparr>trace := trace s @ [Reply r]\<rparr>)"
  by (simp add: main_step_def split: pc.split)

lemma main_step_alive:
  assumes "alive s" and "\<not> interrupt (pc s) r"
  shows "(\<exists>c. trace (main_step a s r) = trace s @ [Reply r, Call c]) \<and> alive (main_step a s r)"
proof -
  have t: "\<forall>e. pc s \<noteq> Terminated e" and x: "\<forall>e. pc s = AtExit (Some e) \<longrightarrow> is_Exception e"
    using assms(1) by (simp_all add: alive_def)
  from resume_trace [OF assms(2) t x, of a "s\<lparr>trace := trace s @ [Reply r]\<rparr>"]
  show ?thesis unfolding main_step_resume [OF t] alive_def by auto
qed

lemma main_run_alive:
  "alive s \<Longrightarrow> uninterrupted a s rs \<Longrightarrow>
    alive (main_run a s rs) \<and>
    length (trace (main_run a s rs)) = length (trace s) + 2 * length rs \<and>
    (rs \<noteq> [] \<longrightarrow> (\<exists>c. last (trace (main_run a s rs)) = Call c))"
proof (induction rs arbitrary: s)
  case Nil
  then show ?case by (simp add: main_run_def)
next
  case (Cons r rs)
  from Cons.prems have ni: "\<not> interrupt (pc s) r" and rest: "uninterrupted a (main_step a s r) rs"
    by simp_all
  from main_step_alive [OF Cons.prems(1) ni, of a]
  obtain c where tr: "trace (main_step a s r) = trace s @ [Reply r, Call c]"
    and al: "alive (main_step a s r)" by blast
  note IH = Cons.IH [OF al rest]
  have run: "main_run a s (r # rs) = main_run a (main_step a s r) rs"
    by (simp add: main_run_def)
  show ?case
  proof (cases "rs = []")
    case True
    then show ?thesis using al tr by (simp add: main_run_def)
  next
    case False
    then show ?thesis unfolding run using IH tr by simp
  qed
qed

lemma except_Exception_retries:
  assumes "is_Exception e"
  shows "retries a (except_Exception e s)"
  using assms by (simp add: retries_def main_step_def step_defs)

lemma raise_outside_client:
  assumes e: "is_Exception e" and p: "pc s \<in> outside_client \<or> (\<exists>p. pc s = AtExit p)"
  shows "retries a (main_step a s (Raises e))"
proof -
  have t: "\<forall>x. pc s \<noteq> Terminated x" using p by (auto simp: outside_client_def)
  have "resume a (pc s) (Raises e) (s\<lparr>trace := trace s @ [Reply (Raises e)]\<rparr>)
      = except_Exception e (s\<lparr>trace := trace s @ [Reply (Raises e)]\<rparr>)"
    using p by (auto simp: outside_client_def)
  then show ?thesis
    unfolding main_step_resume [OF t] using e by (simp add: except_Exception_retries)
qed

lemma exit_client_retries:
  assumes e: "is_Exception e" and p: "pc s = AtExit (Some e)"
    and r: "\<not> interrupt (AtExit (Some e)) r"
  shows "retries a (main_step a s r)"
proof -
  have t: "\<forall>x. pc s \<noteq> Terminated x" using p by simp
  have "\<exists>e'. is_Exception e' \<and>
      resume a (pc s) r (s\<lparr>trace := trace s @ [Reply r]\<rparr>)
      = except_Exception e' (s\<lparr>trace := trace s @ [Reply r]\<rparr>)"
    using e r unfolding p by (cases r) auto
  then show ?thesis
    unfolding main_step_resume [OF t] by (auto simp: except_Exception_retries)
qed

lemma raise_inside_client:
  assumes e: "is_Exception e" and p: "pc s \<in> inside_client"
  shows "pc (main_step a s (Raises e)) = AtExit (Some e)"
    and "\<exists>t. trace (main_step a s (Raises e)) = t @ [Call Disconnect]"
proof -
  have t: "\<forall>x. pc s \<noteq> Terminated x" using p by (auto simp: inside_client_def)
  have k: "e \<noteq> KeyboardInterrupt" using e by auto
  have "resume a (pc s) (Raises e) (s\<lparr>trace := trace s @ [Reply (Raises e)]\<rparr>)
      = aexit (Some e) (s\<lparr>trace := trace s @ [Reply (Raises e)]\<rparr>)"
    using p k by (auto simp: inside_client_def except_KeyboardInterrupt_def)
  then have ms: "main_step a s (Raises e) = aexit (Some e) (s\<lparr>trace := trace s @ [Reply (Raises e)]\<rparr>)"
    unfolding main_step_resume [OF t] .
  show "pc (main_step a s (Raises e)) = AtExit (Some e)"
    unfolding ms by (simp add: aexit_def issue_def)
  show "\<exists>t. trace (main_step a s (Raises e)) = t @ [Call Disconnect]"
    unfolding ms by (simp add: aexit_def issue_def)
qed

lemma device_not_found_retries:
  assumes "pc s = AtFindDevice"
  shows "retries a (main_step a s (Returns PyNone))"
proof -
  have t: "\<forall>x. pc s \<noteq> Terminated x" using assms by simp
  show ?thesis
    unfolding main_step_resume [OF t] assms by (simp add: except_Exception_retries)
qed

lemma failed_attempts:
  assumes e: "is_Exception e"
  shows "pc s = AtScanDevices \<Longrightarrow>
    pc (main_run a s (concat (replicate n [Raises e, Returns v]))) = AtScanDevices"
proof (induction n arbitrary: s)
  case 0
  then show ?case by (simp add: main_run_def)
next
  case (Suc n)
  define s1 where "s1 = main_step a s (Raises e)"
  define s2 where "s2 = main_step a s1 (Returns v)"
  have "retries a s1"
    unfolding s1_def using e Suc.prems by (intro raise_outside_client) (simp_all add: outside_client_def)
  then have "pc s2 = AtScanDevices" unfolding s2_def retries_def by blast
  then have "pc (main_run a s2 (concat (replicate n [Raises e, Returns v]))) = AtScanDevices"
    by (rule Suc.IH)
  moreover have "main_run a s (concat (replicate (Suc n) [Raises e, Returns v]))
      = main_run a s2 (concat (replicate n [Raises e, Returns v]))"
    unfolding s1_def s2_def by (simp add: main_run_def)
  ultimately show ?case by simp
qed

lemma main_start_alive: "alive (main_start g)" "pc (main_start g) = AtScanDevices"
  "trace (main_start g) = [Call ScanDevices]"
  by (simp_all add: alive_def main_start_def loop_top_def issue_def info_def)

lemmas main_eval = main_def main_run_def main_start_def main_step_def step_defs

lemma disconnected_path:
  assumes p: "pc s = AtIsConnected" and v: "\<not> truthy v"
    and r: "\<not> interrupt (AtExit (Some (Exception ''Disconnected''))) r"
  shows "pc (main_step a s (Returns v)) = AtExit (Some (Exception ''Disconnected''))"
    and "pc (main_step a (main_step a s (Returns v)) r) = AtRetrySleep"
    and "pc (main_step a (main_step a (main_step a s (Returns v)) r) (Returns w)) = AtScanDevices"
    and "trace (main_step a (main_step a (main_step a s (Returns v)) r) (Returns w)) =
      trace s @ [Reply (Returns v), Call Disconnect, Reply r, Call (Sleep 5), Reply (Returns w),
        Call ScanDevices]"
proof -
  have e: "is_Exception (Exception ''Disconnected'')" by simp
  show 1: "pc (main_step a s (Returns v)) = AtExit (Some (Exception ''Disconnected''))"
    using p v by (simp add: main_step_def step_defs)
  have t1: "trace (main_step a s (Returns v)) = trace s @ [Reply (Returns v), Call Disconnect]"
    using p v by (simp add: main_step_def step_defs)
  show 2: "pc (main_step a (main_step a s (Returns v)) r) = AtRetrySleep"
    using exit_client_retries [OF e 1 r, of a] by (simp add: retries_def)
  define s1 where "s1 = main_step a s (Returns v)"
  have nt: "\<forall>x. pc s1 \<noteq> Terminated x" unfolding s1_def 1 by simp
  have p1: "pc s1 = AtExit (Some (Exception ''Disconnected''))" unfolding s1_def by (rule 1)
  have "trace (main_step a s1 r) = trace s1 @ [Reply r, Call (Sleep 5)]"
    unfolding main_step_resume [OF nt] p1 using r by (cases r) (simp_all add: step_defs)
  then have t2: "trace (main_step a (main_step a s (Returns v)) r) =
      trace s @ [Reply (Returns v), Call Disconnect, Reply r, Call (Sleep 5)]"
    unfolding s1_def t1 by simp
  show "pc (main_step a (main_step a (main_step a s (Returns v)) r) (Returns w)) = AtScanDevices"
    using 2 by (simp add: main_step_def step_defs)
  show "trace (main_step a (main_step a (main_step a s (Returns v)) r) (Returns w)) =
      trace s @ [Reply (Returns v), Call Disconnect, Reply r, Call (Sleep 5), Reply (Returns w),
        Call ScanDevices]"
    using 2 t2 by (simp add: main_step_def step_defs)
qed

section \<open>The claims about the connection supervisor\<close>

text \<open>
  Claim C4. Every exception (an instance of \<open>Exception\<close>) raised in the path from the scan
  to the streaming is caught by the outer \<open>except\<close> clause and turned into the delay of 5
  seconds, after which \<open>main\<close> is at the scan again: at once when it is raised outside
  the \<open>with\<close> block, and after the block's exit has disconnected the client when it is
  raised inside, provided the exit is not itself interrupted. The same holds for the
  exception that \<open>main\<close> raises when the device is not found. The loop counts nothing:
  after any number of failed attempts \<open>main\<close> is at the scan, and on any list of replies
  without a process-level interrupt it has not ended but has answered every reply with
  a new call.
\<close>

theorem exceptions_are_retried:
  "(is_Exception e \<and> (pc s \<in> outside_client \<or> (\<exists>p. pc s = AtExit p)) \<longrightarrow>
      retries a (main_step a s (Raises e))) \<and>
   (is_Exception e \<and> pc s \<in> inside_client \<longrightarrow>
      pc (main_step a s (Raises e)) = AtExit (Some e) \<and>
      (\<exists>t. trace (main_step a s (Raises e)) = t @ [Call Disconnect]) \<and>
      (\<forall>r. \<not> interrupt (AtExit (Some e)) r \<longrightarrow>
         retries a (main_step a (main_step a s (Raises e)) r))) \<and>
   (pc s = AtFindDevice \<longrightarrow> retries a (main_step a s (Returns PyNone))) \<and>
   (is_Exception e \<longrightarrow>
      (\<forall>n. pc (main a g (concat (replicate n [Raises e, Returns v]))) = AtScanDevices)) \<and>
   (uninterrupted a (main_start g) rs \<longrightarrow>
      (\<forall>x. pc (main a g rs) \<noteq> Terminated x) \<and>
      length (trace (main a g rs)) = 2 * length rs + 1)"
proof -
  have 1: "retries a (main_step a s (Raises e))"
    if "is_Exception e" "pc s \<in> outside_client \<or> (\<exists>p. pc s = AtExit p)"
    using that by (rule raise_outside_client)
  have 2: "pc (main_step a s (Raises e)) = AtExit (Some e) \<and>
      (\<exists>t. trace (main_step a s (Raises e)) = t @ [Call Disconnect]) \<and>
      (\<forall>r. \<not> interrupt (AtExit (Some e)) r \<longrightarrow>
         retries a (main_step a (main_step a s (Raises e)) r))"
    if e: "is_Exception e" and p: "pc s \<in> inside_client"
    using raise_inside_client [OF e p, of a] exit_client_retries [OF e, of "main_step a s (Raises e)"]
    by blast
  have 3: "retries a (main_step a s (Returns PyNone))" if "pc s = AtFindDevice"
    using that by (rule device_not_found_retries)
  have 4: "pc (main a g (concat (replicate n [Raises e, Returns v]))) = AtScanDevices"
    if "is_Exception e" for n
    unfolding main_def using that main_start_alive(2) by (rule failed_attempts)
  have 5: "(\<forall>x. pc (main a g rs) \<noteq> Terminated x) \<and>
      length (trace (main a g rs)) = 2 * length rs + 1"
    if "uninterrupted a (main_start g) rs"
    using main_run_alive [OF main_start_alive(1) that] unfolding main_def
    by (simp add: alive_def main_start_alive(3))
  show ?thesis using 1 2 3 4 5 by blast
qed

theorem exceptions_are_retried_witness:
  "is_Exception (Exception ''boom'') \<and>
   pc (main_start \<lparr>temperature = Map.empty, last_received = 0, logger = []\<rparr>) \<in> outside_client \<and>
   retries \<lparr>address = Some ''AA:BB'', probe1_name = None, probe2_name = None, debug = False\<rparr>
     (main_step \<lparr>address = Some ''AA:BB'', probe1_name = None, probe2_name = None, debug = False\<rparr>
        (main_start \<lparr>temperature = Map.empty, last_received = 0, logger = []\<rparr>)
        (Raises (Exception ''boom''))) \<and>
   pc (main \<lparr>address = Some ''AA:BB'', probe1_name = None, probe2_name = None, debug = False\<rparr>
         \<lparr>temperature = Map.empty, last_received = 0, logger = []\<rparr>
         [Returns PyNone, Returns PyObject, Returns PyObject, Returns PyNone]) \<in> inside_client \<and>
   \<not> interrupt (AtExit (Some (Exception ''boom''))) (Returns PyNone) \<and>
   retries \<lparr>address = Some ''AA:BB'', probe1_name = None, probe2_name = None, debug = False\<rparr>
     (main \<lparr>address = Some ''AA:BB'', probe1_name = None, probe2_name = None, debug = False\<rparr>
         \<lparr>temperature = Map.empty, last_received = 0, logger = []\<rparr>
         [Returns PyNone, Returns PyObject, Returns PyObject, Returns PyNone,
          Raises (Exception ''boom''), Returns PyNone]) \<and>
   pc (main \<lparr>address = Some ''AA:BB'', probe1_name = None, probe2_name = None, debug = False\<rparr>
         \<lparr>temperature = Map.empty, last_received = 0, logger = []\<rparr>
         [Returns PyNone]) = AtFindDevice \<and>
   retries \<lparr>address = Some ''AA:BB'', probe1_name = None, probe2_name = None, debug = False\<rparr>
     (main \<lparr>address = Some ''AA:BB'', probe1_name = None, probe2_name = None, debug = False\<rparr>
         \<lparr>temperature = Map.empty, last_received = 0, logger = []\<rparr>
         [Returns PyNone, Returns PyNone]) \<and>
   uninterrupted \<lparr>address = Some ''AA:BB'', probe1_name = None, probe2_name = None, debug = False\<rparr>
     (main_start \<lparr>temperature = Map.empty, last_received = 0, logger = []\<rparr>)
     [Raises (Exception ''boom''), Returns PyNone, Raises (Exception ''boom'')] \<and>
   pc (main \<lparr>address = Some ''AA:BB'', probe1_name = None, probe2_name = None, debug = False\<rparr>
         \<lparr>temperature = Map.empty, last_received = 0, logger = []\<rparr>
         [Raises (Exception ''boom''), Returns PyNone, Raises (Exception ''boom'')])
     \<noteq> Terminated (Exception ''boom'') \<and>
   pc (main \<lparr>address = Some ''AA:BB'', probe1_name = None, probe2_name = None, debug = False\<rparr>
         \<lparr>temperature = Map.empty, last_received = 0, logger = []\<rparr>
         (concat (replicate 3 [Raises (Exception ''boom''), Returns PyNone]))) = AtScanDevices"
proof -
  define A where "A = \<lparr>address = Some ''AA:BB'', probe1_name = None, probe2_name = None,
    debug = False\<rparr>"
  define G where "G = \<lparr>temperature = Map.empty, last_received = 0, logger = []\<rparr>"
  define e where "e = Exception ''boom''"
  define s where "s = main A G [Returns PyNone, Returns PyObject, Returns PyObject, Returns PyNone]"
  define f where "f = main A G [Returns PyNone]"
  have h1: "is_Exception e" by (simp add: e_def)
  have h2: "pc (main_start G) \<in> outside_client"
    by (simp add: outside_client_def main_start_alive)
  have h3: "pc s \<in> inside_client"
    by (simp add: s_def inside_client_def main_eval)
  have h4: "\<not> interrupt (AtExit (Some e)) (Returns PyNone)" by simp
  have h5: "pc f = AtFindDevice" by (simp add: f_def main_eval)
  have h6: "uninterrupted A (main_start G) [Raises e, Returns PyNone, Raises e]"
    by (simp add: e_def main_eval)
  have run1: "main A G [Returns PyNone, Returns PyObject, Returns PyObject, Returns PyNone,
      Raises e, Returns PyNone] = main_step A (main_step A s (Raises e)) (Returns PyNone)"
    by (simp add: s_def main_def main_run_def)
  have run2: "main A G [Returns PyNone, Returns PyNone] = main_step A f (Returns PyNone)"
    by (simp add: f_def main_def main_run_def)
  note t1 = exceptions_are_retried [where e = e and s = "main_start G" and a = A and g = G
      and rs = "[Raises e, Returns PyNone, Raises e]" and v = PyNone]
  note t2 = exceptions_are_retried [where e = e and s = s and a = A and g = G
      and rs = "[]" and v = PyNone]
  note t3 = exceptions_are_retried [where e = e and s = f and a = A and g = G
      and rs = "[]" and v = PyNone]
  have r1: "retries A (main_step A (main_start G) (Raises e))" using t1 h1 h2 by blast
  have "retries A (main_step A (main_step A s (Raises e)) (Returns PyNone))"
    using t2 h1 h3 h4 by blast
  then have r2: "retries A (main A G [Returns PyNone, Returns PyObject, Returns PyObject,
      Returns PyNone, Raises e, Returns PyNone])"
    unfolding run1 .
  have "retries A (main_step A f (Returns PyNone))" using t3 h5 by blast
  then have r3: "retries A (main A G [Returns PyNone, Returns PyNone])"
    unfolding run2 .
  have r4: "pc (main A G [Raises e, Returns PyNone, Raises e]) \<noteq> Terminated e"
    using t1 h6 by blast
  have r5: "pc (main A G (concat (replicate 3 [Raises e, Returns PyNone]))) = AtScanDevices"
    using t1 h1 by blast
  show ?thesis
    using h1 h2 r1 h3 h4 r2 h5 r3 h6 r4 r5
    unfolding s_def f_def A_def G_def e_def
    by blast
qed

text \<open>
  Claim C7. When \<open>client.is_connected\<close> is false during streaming, \<open>main\<close> raises
  \<open>Exception("Disconnected")\<close>, leaves the \<open>with\<close> block (disconnecting), sleeps 5 seconds
  and is at the scan again; the gauges and the timestamp of the registry are after each of
  these steps what they were before. No step of \<open>main\<close> ever writes them.
\<close>

theorem disconnect_keeps_registry:
  "(pc s = AtIsConnected \<and> \<not> truthy v \<and>
    \<not> interrupt (AtExit (Some (Exception ''Disconnected''))) r \<longrightarrow>
      pc (main_step a s (Returns v)) = AtExit (Some (Exception ''Disconnected'')) \<and>
      pc (main_step a (main_step a s (Returns v)) r) = AtRetrySleep \<and>
      pc (main_step a (main_step a (main_step a s (Returns v)) r) (Returns w)) = AtScanDevices \<and>
      trace (main_step a (main_step a (main_step a s (Returns v)) r) (Returns w)) =
        trace s @ [Reply (Returns v), Call Disconnect, Reply r, Call (Sleep 5),
          Reply (Returns w), Call ScanDevices] \<and>
      temperature (env (main_step a s (Returns v))) = temperature (env s) \<and>
      last_received (env (main_step a s (Returns v))) = last_received (env s) \<and>
      temperature (env (main_step a (main_step a s (Returns v)) r)) = temperature (env s) \<and>
      last_received (env (main_step a (main_step a s (Returns v)) r)) = last_received (env s) \<and>
      temperature (env (main_step a (main_step a (main_step a s (Returns v)) r) (Returns w)))
        = temperature (env s) \<and>
      last_received (env (main_step a (main_step a (main_step a s (Returns v)) r) (Returns w)))
        = last_received (env s)) \<and>
   temperature (env (main_run a s rs)) = temperature (env s) \<and>
   last_received (env (main_run a s rs)) = last_received (env s) \<and>
   temperature (env (main a g rs)) = temperature g \<and>
   last_received (env (main a g rs)) = last_received g"
proof -
  have start: "temperature (env (main_start g)) = temperature g"
    "last_received (env (main_start g)) = last_received g"
    by (simp_all add: main_start_def step_defs)
  have whole: "temperature (env (main a g rs)) = temperature g"
    "last_received (env (main a g rs)) = last_received g"
    unfolding main_def using main_run_gauges [of a "main_start g" rs] start by simp_all
  have path: "pc (main_step a s (Returns v)) = AtExit (Some (Exception ''Disconnected'')) \<and>
      pc (main_step a (main_step a s (Returns v)) r) = AtRetrySleep \<and>
      pc (main_step a (main_step a (main_step a s (Returns v)) r) (Returns w)) = AtScanDevices \<and>
      trace (main_step a (main_step a (main_step a s (Returns v)) r) (Returns w)) =
        trace s @ [Reply (Returns v), Call Disconnect, Reply r, Call (Sleep 5),
          Reply (Returns w), Call ScanDevices]"
    if "pc s = AtIsConnected" "\<not> truthy v"
      "\<not> interrupt (AtExit (Some (Exception ''Disconnected''))) r"
    using disconnected_path [OF that] by blast
  have frame: "temperature (env (main_step a s (Returns v))) = temperature (env s) \<and>
      last_received (env (main_step a s (Returns v))) = last_received (env s) \<and>
      temperature (env (main_step a (main_step a s (Returns v)) r)) = temperature (env s) \<and>
      last_received (env (main_step a (main_step a s (Returns v)) r)) = last_received (env s) \<and>
      temperature (env (main_step a (main_step a (main_step a s (Returns v)) r) (Returns w)))
        = temperature (env s) \<and>
      last_received (env (main_step a (main_step a (main_step a s (Returns v)) r) (Returns w)))
        = last_received (env s)"
    by (simp add: main_step_gauges)
  show ?thesis
    using path frame main_run_gauges [of a s rs] whole by blast
qed

theorem disconnect_keeps_registry_witness:
  "pc (main \<lparr>address = Some ''AA:BB'', probe1_name = Some ''probe1'', probe2_name = Some ''probe2'',
            debug = False\<rparr>
         \<lparr>temperature = [''probe1'' \<mapsto> 21, ''probe2'' \<mapsto> 22], last_received = 100, logger = []\<rparr>
         [Returns PyNone, Returns PyObject, Returns PyObject, Returns PyObject, Returns PyNone,
          Returns PyNone, Returns PyNone, Returns PyNone]) = AtIsConnected \<and>
   \<not> truthy (PyBool False) \<and>
   \<not> interrupt (AtExit (Some (Exception ''Disconnected''))) (Returns PyNone) \<and>
   pc (main \<lparr>address = Some ''AA:BB'', probe1_name = Some ''probe1'', probe2_name = Some ''probe2'',
            debug = False\<rparr>
         \<lparr>temperature = [''probe1'' \<mapsto> 21, ''probe2'' \<mapsto> 22], last_received = 100, logger = []\<rparr>
         [Returns PyNone, Returns PyObject, Returns PyObject, Returns PyObject, Returns PyNone,
          Returns PyNone, Returns PyNone, Returns PyNone,
          Returns (PyBool False), Returns PyNone, Returns PyNone]) = AtScanDevices \<and>
   temperature (env (main \<lparr>address = Some ''AA:BB'', probe1_name = Some ''probe1'',
            probe2_name = Some ''probe2'', debug = False\<rparr>
         \<lparr>temperature = [''probe1'' \<mapsto> 21, ''probe2'' \<mapsto> 22], last_received = 100, logger = []\<rparr>
         [Returns PyNone, Returns PyObject, Returns PyObject, Returns PyObject, Returns PyNone,
          Returns PyNone, Returns PyNone, Returns PyNone,
          Returns (PyBool False), Returns PyNone, Returns PyNone]))
     = [''probe1'' \<mapsto> 21, ''probe2'' \<mapsto> 22] \<and>
   last_received (env (main \<lparr>address = Some ''AA:BB'', probe1_name = Some ''probe1'',
            probe2_name = Some ''probe2'', debug = False\<rparr>
         \<lparr>temperature = [''probe1'' \<mapsto> 21, ''probe2'' \<mapsto> 22], last_received = 100, logger = []\<rparr>
         [Returns PyNone, Returns PyObject, Returns PyObject, Returns PyObject, Returns PyNone,
          Returns PyNone, Returns PyNone, Returns PyNone,
          Returns (PyBool False), Returns PyNone, Returns PyNone])) = 100"
proof -
  define A where "A = \<lparr>address = Some ''AA:BB'', probe1_name = Some ''probe1'',
    probe2_name = Some ''probe2'', debug = False\<rparr>"
  define G where "G = \<lparr>temperature = [''probe1'' \<mapsto> 21, ''probe2'' \<mapsto> 22],
    last_received = 100 :: double, logger = []\<rparr>"
  define rs where "rs = [Returns PyNone, Returns PyObject, Returns PyObject, Returns PyObject,
    Returns PyNone, Returns PyNone, Returns PyNone, Returns PyNone]"
  define s where "s = main A G rs"
  have h1: "pc s = AtIsConnected" by (simp add: s_def rs_def main_eval)
  have h2: "\<not> truthy (PyBool False)" by simp
  have h3: "\<not> interrupt (AtExit (Some (Exception ''Disconnected''))) (Returns PyNone)" by simp
  have run: "main A G (rs @ [Returns (PyBool False), Returns PyNone, Returns PyNone])
      = main_step A (main_step A (main_step A s (Returns (PyBool False))) (Returns PyNone))
          (Returns PyNone)"
    by (simp add: s_def main_def main_run_def)
  note t = disconnect_keeps_registry [where s = s and v = "PyBool False" and r = "Returns PyNone"
      and a = A and w = PyNone and g = G and rs = rs]
  have g: "temperature (env s) = temperature G" "last_received (env s) = last_received G"
    unfolding s_def using t by blast+
  have r1: "pc (main A G (rs @ [Returns (PyBool False), Returns PyNone, Returns PyNone]))
      = AtScanDevices"
    unfolding run using t h1 h2 h3 by blast
  have r2: "temperature (env (main A G (rs @ [Returns (PyBool False), Returns PyNone,
      Returns PyNone]))) = temperature G"
    unfolding run g(1) [symmetric] using t h1 h2 h3 by blast
  have r3: "last_received (env (main A G (rs @ [Returns (PyBool False), Returns PyNone,
      Returns PyNone]))) = last_received G"
    unfolding run g(2) [symmetric] using t h1 h2 h3 by blast
  have G1: "temperature G = [''probe1'' \<mapsto> 21, ''probe2'' \<mapsto> 22]" "last_received G = 100"
    by (simp_all add: G_def)
  show ?thesis
    using h1 h2 h3 r1 r2 r3 unfolding G1 unfolding s_def rs_def A_def G_def
    by simp
qed

section \<open>Facts about the trace of calls\<close>

lemma frames_differ: "use_celsius \<noteq> enable_realtime"
  by (simp add: use_celsius_def enable_realtime_def)

lemma resume_issues:
  "\<forall>e. p \<noteq> Terminated e \<Longrightarrow>
   trace (resume a p r s) = trace s \<or>
   (\<exists>c. trace (resume a p r s) = trace s @ [Call c] \<and>
     (\<forall>ch bs. c = WriteGattChar ch bs \<longrightarrow> ch = settings_characteristic \<and>
        ((bs = use_celsius \<and> p = AtServices) \<or> (bs = enable_realtime \<and> p = AtWriteCelsius)) \<and>
        (\<exists>v. r = Returns v)) \<and>
     (\<forall>ch. c = StartNotify ch \<longrightarrow> ch = data_characteristic \<and> p = AtWriteRealtime \<and>
        (\<exists>v. r = Returns v)))"
  by (induction a p r s rule: resume.induct) (simp_all add: step_defs)

lemma resume_pending:
  "\<forall>e. p \<noteq> Terminated e \<Longrightarrow>
   (pc (resume a p r s) = AtWriteCelsius \<longrightarrow>
      trace (resume a p r s) = trace s @ [Call (WriteGattChar settings_characteristic use_celsius)]) \<and>
   (pc (resume a p r s) = AtWriteRealtime \<longrightarrow>
      p = AtWriteCelsius \<and> (\<exists>v. r = Returns v) \<and>
      trace (resume a p r s) = trace s @ [Call (WriteGattChar settings_characteristic enable_realtime)])"
  by (induction a p r s rule: resume.induct) (simp_all add: step_defs)

lemma setup_ordered_reply: "setup_ordered (t @ [Reply r]) \<longleftrightarrow> setup_ordered t"
  unfolding setup_ordered_def prefix_snoc by simp

lemma setup_ordered_call:
  "setup_ordered (t @ [Call c]) \<longleftrightarrow>
     setup_ordered t \<and>
     (\<forall>ch. c = StartNotify ch \<longrightarrow> ch = data_characteristic \<and>
        (\<exists>ys v w. t = ys @
           [Call (WriteGattChar settings_characteristic use_celsius), Reply (Returns v),
            Call (WriteGattChar settings_characteristic enable_realtime), Reply (Returns w)])) \<and>
     (\<forall>ch. c = WriteGattChar ch enable_realtime \<longrightarrow>
        (\<exists>ys v. t = ys @
           [Call (WriteGattChar settings_characteristic use_celsius), Reply (Returns v)]))"
  unfolding setup_ordered_def prefix_snoc by auto

lemma main_step_setup:
  assumes ord: "setup_ordered (trace s)" and pend: "setup_pending s"
  shows "setup_ordered (trace (main_step a s r)) \<and> setup_pending (main_step a s r)"
proof (cases "\<exists>e. pc s = Terminated e")
  case True
  then have "main_step a s r = s" by (auto simp: main_step_def)
  with ord pend show ?thesis by simp
next
  case False
  then have nt: "\<forall>e. pc s \<noteq> Terminated e" by simp
  define s0 where "s0 = s\<lparr>trace := trace s @ [Reply r]\<rparr>"
  define s' where "s' = resume a (pc s) r s0"
  have ms: "main_step a s r = s'"
    unfolding s'_def s0_def using nt by (rule main_step_resume)
  have t0: "trace s0 = trace s @ [Reply r]" unfolding s0_def by simp
  have ord0: "setup_ordered (trace s0)" unfolding t0 setup_ordered_reply by (rule ord)
  note iss = resume_issues [OF nt, of a r s0, folded s'_def]
  note pen = resume_pending [OF nt, of a r s0, folded s'_def]
  have cel: "\<exists>t. trace s = t @ [Call (WriteGattChar settings_characteristic use_celsius)]"
    if "pc s = AtWriteCelsius"
    using pend that unfolding setup_pending_def by blast
  have rt: "\<exists>t v. trace s = t @
           [Call (WriteGattChar settings_characteristic use_celsius), Reply (Returns v),
            Call (WriteGattChar settings_characteristic enable_realtime)]"
    if "pc s = AtWriteRealtime"
    using pend that unfolding setup_pending_def by blast
  have pend': "setup_pending s'"
    unfolding setup_pending_def
  proof (intro conjI impI)
    assume "pc s' = AtWriteCelsius"
    with pen show "\<exists>t. trace s' = t @ [Call (WriteGattChar settings_characteristic use_celsius)]"
      by blast
  next
    assume "pc s' = AtWriteRealtime"
    with pen obtain v where p: "pc s = AtWriteCelsius" and r: "r = Returns v"
      and tr: "trace s' = trace s0 @ [Call (WriteGattChar settings_characteristic enable_realtime)]"
      by blast
    from cel [OF p] obtain t where "trace s = t @ [Call (WriteGattChar settings_characteristic use_celsius)]" ..
    then have "trace s' = t @ [Call (WriteGattChar settings_characteristic use_celsius),
        Reply (Returns v), Call (WriteGattChar settings_characteristic enable_realtime)]"
      unfolding tr t0 r by simp
    then show "\<exists>t v. trace s' = t @
           [Call (WriteGattChar settings_characteristic use_celsius), Reply (Returns v),
            Call (WriteGattChar settings_characteristic enable_realtime)]"
      by blast
  qed
  from iss have ord': "setup_ordered (trace s')"
  proof
    assume "trace s' = trace s0"
    with ord0 show ?thesis by simp
  next
    assume "\<exists>c. trace s' = trace s0 @ [Call c] \<and>
     (\<forall>ch bs. c = WriteGattChar ch bs \<longrightarrow> ch = settings_characteristic \<and>
        ((bs = use_celsius \<and> pc s = AtServices) \<or> (bs = enable_realtime \<and> pc s = AtWriteCelsius)) \<and>
        (\<exists>v. r = Returns v)) \<and>
     (\<forall>ch. c = StartNotify ch \<longrightarrow> ch = data_characteristic \<and> pc s = AtWriteRealtime \<and>
        (\<exists>v. r = Returns v))"
    then obtain c where tr: "trace s' = trace s0 @ [Call c]"
      and w: "\<And>ch bs. c = WriteGattChar ch bs \<Longrightarrow> ch = settings_characteristic \<and>
        ((bs = use_celsius \<and> pc s = AtServices) \<or> (bs = enable_realtime \<and> pc s = AtWriteCelsius)) \<and>
        (\<exists>v. r = Returns v)"
      and n: "\<And>ch. c = StartNotify ch \<Longrightarrow> ch = data_characteristic \<and> pc s = AtWriteRealtime \<and>
        (\<exists>v. r = Returns v)"
      by blast
    have a1: "ch = data_characteristic \<and>
        (\<exists>ys v w. trace s0 = ys @
           [Call (WriteGattChar settings_characteristic use_celsius), Reply (Returns v),
            Call (WriteGattChar settings_characteristic enable_realtime), Reply (Returns w)])"
      if c: "c = StartNotify ch" for ch
    proof -
      from n [OF c] obtain w where ch: "ch = data_characteristic" and p: "pc s = AtWriteRealtime"
        and r: "r = Returns w" by blast
      from rt [OF p] obtain t v where "trace s = t @
           [Call (WriteGattChar settings_characteristic use_celsius), Reply (Returns v),
            Call (WriteGattChar settings_characteristic enable_realtime)]" by blast
      then have "trace s0 = t @
           [Call (WriteGattChar settings_characteristic use_celsius), Reply (Returns v),
            Call (WriteGattChar settings_characteristic enable_realtime), Reply (Returns w)]"
        unfolding t0 r by simp
      with ch show ?thesis by blast
    qed
    have a2: "\<exists>ys v. trace s0 = ys @
           [Call (WriteGattChar settings_characteristic use_celsius), Reply (Returns v)]"
      if c: "c = WriteGattChar ch enable_realtime" for ch
    proof -
      from w [OF c] frames_differ obtain v where p: "pc s = AtWriteCelsius" and r: "r = Returns v"
        by auto
      from cel [OF p] obtain t where
        "trace s = t @ [Call (WriteGattChar settings_characteristic use_celsius)]" ..
      then have "trace s0 = t @
           [Call (WriteGattChar settings_characteristic use_celsius), Reply (Returns v)]"
        unfolding t0 r by simp
      then show ?thesis by blast
    qed
    show ?thesis unfolding tr setup_ordered_call using ord0 a1 a2 by blast
  qed
  show ?thesis unfolding ms using ord' pend' by simp
qed

lemma main_run_setup:
  "setup_ordered (trace s) \<Longrightarrow> setup_pending s \<Longrightarrow>
    setup_ordered (trace (main_run a s rs)) \<and> setup_pending (main_run a s rs)"
proof (induction rs arbitrary: s)
  case Nil
  then show ?case by (simp add: main_run_def)
next
  case (Cons r rs)
  from main_step_setup [OF Cons.prems, of a r]
  have "setup_ordered (trace (main_step a s r))" "setup_pending (main_step a s r)" by simp_all
  from Cons.IH [OF this] show ?case by (simp add: main_run_def)
qed

lemma main_setup_ordered: "setup_ordered (trace (main a g rs))"
proof -
  have "setup_ordered (trace (main_start g))"
    unfolding main_start_alive(3) setup_ordered_def by (simp add: prefix_Cons Cons_eq_append_conv)
  moreover have "setup_pending (main_start g)"
    by (simp add: setup_pending_def main_start_alive(2))
  ultimately show ?thesis unfolding main_def using main_run_setup by blast
qed

lemma setup_trace:
  assumes "v2 \<noteq> PyNone"
  shows "trace (main a g [Returns v1, Returns v2, Returns v3, Returns v4, Returns v5, Returns v6]) =
    [Call ScanDevices, Reply (Returns v1),
     Call (FindDeviceByAddress (address a)), Reply (Returns v2),
     Call Connect, Reply (Returns v3),
     Call Services, Reply (Returns v4),
     Call (WriteGattChar settings_characteristic use_celsius), Reply (Returns v5),
     Call (WriteGattChar settings_characteristic enable_realtime), Reply (Returns v6),
     Call (StartNotify data_characteristic)]"
  using assms by (simp add: main_eval)

lemma main_step_writes:
  assumes inv: "\<forall>ch bs. Call (WriteGattChar ch bs) \<in> set (trace s) \<longrightarrow>
      ch = settings_characteristic \<and> (bs = use_celsius \<or> bs = enable_realtime)"
  shows "\<forall>ch bs. Call (WriteGattChar ch bs) \<in> set (trace (main_step a s r)) \<longrightarrow>
      ch = settings_characteristic \<and> (bs = use_celsius \<or> bs = enable_realtime)"
proof (cases "\<exists>e. pc s = Terminated e")
  case True
  then have "main_step a s r = s" by (auto simp: main_step_def)
  with inv show ?thesis by simp
next
  case False
  then have nt: "\<forall>e. pc s \<noteq> Terminated e" by simp
  define s0 where "s0 = s\<lparr>trace := trace s @ [Reply r]\<rparr>"
  have t0: "trace s0 = trace s @ [Reply r]" unfolding s0_def by simp
  have ms: "main_step a s r = resume a (pc s) r s0"
    unfolding s0_def using nt by (rule main_step_resume)
  from resume_issues [OF nt, of a r s0]
  have "set (trace (resume a (pc s) r s0)) \<subseteq> insert (Reply r) (set (trace s)) \<or>
    (\<exists>c. set (trace (resume a (pc s) r s0)) \<subseteq> insert (Call c) (insert (Reply r) (set (trace s))) \<and>
      (\<forall>ch bs. c = WriteGattChar ch bs \<longrightarrow>
         ch = settings_characteristic \<and> (bs = use_celsius \<or> bs = enable_realtime)))"
    unfolding t0 by auto
  then show ?thesis
    unfolding ms using inv by blast
qed

lemma main_run_writes:
  "\<forall>ch bs. Call (WriteGattChar ch bs) \<in> set (trace s) \<longrightarrow>
      ch = settings_characteristic \<and> (bs = use_celsius \<or> bs = enable_realtime) \<Longrightarrow>
   \<forall>ch bs. Call (WriteGattChar ch bs) \<in> set (trace (main_run a s rs)) \<longrightarrow>
      ch = settings_characteristic \<and> (bs = use_celsius \<or> bs = enable_realtime)"
proof (induction rs arbitrary: s)
  case Nil
  then show ?case by (simp add: main_run_def)
next
  case (Cons r rs)
  from Cons.IH [OF main_step_writes [OF Cons.prems, of a r]]
  show ?case by (simp add: main_run_def)
qed

section \<open>The claims about the session setup\<close>

text \<open>
  Claim C6. In every run of \<open>main\<close>, whatever precedes a subscription
  (\<open>start_notify\<close>, which is always on the data characteristic) ends with the write of
  the Celsius command, its return, the write of the streaming command and its return;
  and whatever precedes a write of the streaming command ends with the write of the
  Celsius command and its return. The three calls follow each other with nothing but the
  returns between them, so they belong to one connection cycle.
\<close>

theorem celsius_then_realtime_then_subscription:
  "(prefix (xs @ [Call (StartNotify ch)]) (trace (main a g rs)) \<longrightarrow>
      ch = data_characteristic \<and>
      (\<exists>ys v w. xs = ys @
         [Call (WriteGattChar settings_characteristic use_celsius), Reply (Returns v),
          Call (WriteGattChar settings_characteristic enable_realtime), Reply (Returns w)])) \<and>
   (prefix (xs @ [Call (WriteGattChar ch enable_realtime)]) (trace (main a g rs)) \<longrightarrow>
      (\<exists>ys v. xs = ys @
         [Call (WriteGattChar settings_characteristic use_celsius), Reply (Returns v)]))"
  using main_setup_ordered [of a g rs] unfolding setup_ordered_def by blast

theorem celsius_then_realtime_then_subscription_witness:
  "prefix
     ([Call ScanDevices, Reply (Returns PyNone),
       Call (FindDeviceByAddress (Some ''AA:BB'')), Reply (Returns PyObject),
       Call Connect, Reply (Returns PyObject),
       Call Services, Reply (Returns PyObject),
       Call (WriteGattChar settings_characteristic use_celsius), Reply (Returns PyNone),
       Call (WriteGattChar settings_characteristic enable_realtime), Reply (Returns PyNone)]
      @ [Call (StartNotify data_characteristic)])
     (trace (main \<lparr>address = Some ''AA:BB'', probe1_name = None, probe2_name = None,
                    debug = False\<rparr>
               \<lparr>temperature = Map.empty, last_received = 0, logger = []\<rparr>
               [Returns PyNone, Returns PyObject, Returns PyObject, Returns PyObject,
                Returns PyNone, Returns PyNone])) \<and>
   (\<exists>ys v w.
      [Call ScanDevices, Reply (Returns PyNone),
       Call (FindDeviceByAddress (Some ''AA:BB'')), Reply (Returns PyObject),
       Call Connect, Reply (Returns PyObject),
       Call Services, Reply (Returns PyObject),
       Call (WriteGattChar settings_characteristic use_celsius), Reply (Returns PyNone),
       Call (WriteGattChar settings_characteristic enable_realtime), Reply (Returns PyNone)]
      = ys @
         [Call (WriteGattChar settings_characteristic use_celsius), Reply (Returns v),
          Call (WriteGattChar settings_characteristic enable_realtime), Reply (Returns w)]) \<and>
   prefix
     ([Call ScanDevices, Reply (Returns PyNone),
       Call (FindDeviceByAddress (Some ''AA:BB'')), Reply (Returns PyObject),
       Call Connect, Reply (Returns PyObject),
       Call Services, Reply (Returns PyObject),
       Call (WriteGattChar settings_characteristic use_celsius), Reply (Returns PyNone)]
      @ [Call (WriteGattChar settings_characteristic enable_realtime)])
     (trace (main \<lparr>address = Some ''AA:BB'', probe1_name = None, probe2_name = None,
                    debug = False\<rparr>
               \<lparr>temperature = Map.empty, last_received = 0, logger = []\<rparr>
               [Returns PyNone, Returns PyObject, Returns PyObject, Returns PyObject,
                Returns PyNone, Returns PyNone])) \<and>
   (\<exists>ys v.
      [Call ScanDevices, Reply (Returns PyNone),
       Call (FindDeviceByAddress (Some ''AA:BB'')), Reply (Returns PyObject),
       Call Connect, Reply (Returns PyObject),
       Call Services, Reply (Returns PyObject),
       Call (WriteGattChar settings_characteristic use_celsius), Reply (Returns PyNone)]
      = ys @ [Call (WriteGattChar settings_characteristic use_celsius), Reply (Returns v)])"
proof -
  define A where "A = \<lparr>address = Some ''AA:BB'', probe1_name = None, probe2_name = None,
    debug = False\<rparr>"
  define G where "G = \<lparr>temperature = Map.empty, last_received = 0 :: double, logger = []\<rparr>"
  define rs where "rs = [Returns PyNone, Returns PyObject, Returns PyObject, Returns PyObject,
    Returns PyNone, Returns PyNone]"
  define xs where "xs = [Call ScanDevices, Reply (Returns PyNone),
       Call (FindDeviceByAddress (Some ''AA:BB'')), Reply (Returns PyObject),
       Call Connect, Reply (Returns PyObject),
       Call Services, Reply (Returns PyObject),
       Call (WriteGattChar settings_characteristic use_celsius), Reply (Returns PyNone)]"
  have tr: "trace (main A G rs) = xs @
      [Call (WriteGattChar settings_characteristic enable_realtime), Reply (Returns PyNone),
       Call (StartNotify data_characteristic)]"
    unfolding rs_def xs_def using setup_trace [of PyObject A G] by (simp add: A_def)
  have h1: "prefix ((xs @ [Call (WriteGattChar settings_characteristic enable_realtime),
      Reply (Returns PyNone)]) @ [Call (StartNotify data_characteristic)]) (trace (main A G rs))"
    unfolding tr by simp
  have h2: "prefix (xs @ [Call (WriteGattChar settings_characteristic enable_realtime)])
      (trace (main A G rs))"
    unfolding tr by simp
  note t1 = celsius_then_realtime_then_subscription
    [where xs = "xs @ [Call (WriteGattChar settings_characteristic enable_realtime),
      Reply (Returns PyNone)]" and ch = data_characteristic and a = A and g = G and rs = rs]
  note t2 = celsius_then_realtime_then_subscription
    [where xs = xs and ch = settings_characteristic and a = A and g = G and rs = rs]
  have r1: "\<exists>ys v w. xs @ [Call (WriteGattChar settings_characteristic enable_realtime),
      Reply (Returns PyNone)] = ys @
         [Call (WriteGattChar settings_characteristic use_celsius), Reply (Returns v),
          Call (WriteGattChar settings_characteristic enable_realtime), Reply (Returns w)]"
    using t1 h1 by blast
  have r2: "\<exists>ys v. xs = ys @
      [Call (WriteGattChar settings_characteristic use_celsius), Reply (Returns v)]"
    using t2 h2 by blast
  show ?thesis
    using h1 r1 h2 r2 unfolding xs_def rs_def A_def G_def by simp
qed

text \<open>
  Claim C8. The two command frames are the six bytes \<open>02 00 00 00 00 00\<close> and
  \<open>0B 01 00 00 00 00\<close>. Every write that \<open>main\<close> ever makes is a write of one of them to
  the settings characteristic \<open>0000fff5-...\<close>, and a setup in which every call returns
  writes the first, then the second, and then subscribes to \<open>0000fff4-...\<close>.
\<close>

theorem settings_command_frames:
  "use_celsius = [0x02, 0x00, 0x00, 0x00, 0x00, 0x00] \<and>
   enable_realtime = [0x0B, 0x01, 0x00, 0x00, 0x00, 0x00] \<and>
   length use_celsius = 6 \<and> length enable_realtime = 6 \<and>
   (Call (WriteGattChar ch bs) \<in> set (trace (main a g rs)) \<longrightarrow>
      ch = ''0000fff5-0000-1000-8000-00805f9b34fb'' \<and>
      (bs = [0x02, 0x00, 0x00, 0x00, 0x00, 0x00] \<or> bs = [0x0B, 0x01, 0x00, 0x00, 0x00, 0x00])) \<and>
   (v2 \<noteq> PyNone \<longrightarrow>
      trace (main a g [Returns v1, Returns v2, Returns v3, Returns v4, Returns v5, Returns v6]) =
        [Call ScanDevices, Reply (Returns v1),
         Call (FindDeviceByAddress (address a)), Reply (Returns v2),
         Call Connect, Reply (Returns v3),
         Call Services, Reply (Returns v4),
         Call (WriteGattChar ''0000fff5-0000-1000-8000-00805f9b34fb''
                 [0x02, 0x00, 0x00, 0x00, 0x00, 0x00]), Reply (Returns v5),
         Call (WriteGattChar ''0000fff5-0000-1000-8000-00805f9b34fb''
                 [0x0B, 0x01, 0x00, 0x00, 0x00, 0x00]), Reply (Returns v6),
         Call (StartNotify ''0000fff4-0000-1000-8000-00805f9b34fb'')])"
proof -
  have "\<forall>ch bs. Call (WriteGattChar ch bs) \<in> set (trace (main_start g)) \<longrightarrow>
      ch = settings_characteristic \<and> (bs = use_celsius \<or> bs = enable_realtime)"
    by (simp add: main_start_alive(3))
  from main_run_writes [OF this, of a rs]
  have w: "Call (WriteGattChar ch bs) \<in> set (trace (main a g rs)) \<longrightarrow>
      ch = settings_characteristic \<and> (bs = use_celsius \<or> bs = enable_realtime)"
    unfolding main_def by blast
  have s: "v2 \<noteq> PyNone \<longrightarrow>
      trace (main a g [Returns v1, Returns v2, Returns v3, Returns v4, Returns v5, Returns v6]) =
        [Call ScanDevices, Reply (Returns v1),
         Call (FindDeviceByAddress (address a)), Reply (Returns v2),
         Call Connect, Reply (Returns v3),
         Call Services, Reply (Returns v4),
         Call (WriteGattChar settings_characteristic use_celsius), Reply (Returns v5),
         Call (WriteGattChar settings_characteristic enable_realtime), Reply (Returns v6),
         Call (StartNotify data_characteristic)]"
    using setup_trace [of v2 a g v1 v3 v4 v5 v6] by blast
  show ?thesis
    using w s
    unfolding use_celsius_def enable_realtime_def settings_characteristic_def
      data_characteristic_def
    by simp
qed

theorem settings_command_frames_witness:
  "PyObject \<noteq> PyNone \<and>
   Call (WriteGattChar ''0000fff5-0000-1000-8000-00805f9b34fb'' [0x0B, 0x01, 0x00, 0x00, 0x00, 0x00])
     \<in> set (trace (main \<lparr>address = Some ''AA:BB'', probe1_name = None, probe2_name = None,
                           debug = False\<rparr>
               \<lparr>temperature = Map.empty, last_received = 0, logger = []\<rparr>
               [Returns PyNone, Returns PyObject, Returns PyObject, Returns PyObject,
                Returns PyNone, Returns PyNone])) \<and>
   trace (main \<lparr>address = Some ''AA:BB'', probe1_name = None, probe2_name = None,
                 debug = False\<rparr>
            \<lparr>temperature = Map.empty, last_received = 0, logger = []\<rparr>
            [Returns PyNone, Returns PyObject, Returns PyObject, Returns PyObject,
             Returns PyNone, Returns PyNone]) =
        [Call ScanDevices, Reply (Returns PyNone),
         Call (FindDeviceByAddress (Some ''AA:BB'')), Reply (Returns PyObject),
         Call Connect, Reply (Returns PyObject),
         Call Services, Reply (Returns PyObject),
         Call (WriteGattChar ''0000fff5-0000-1000-8000-00805f9b34fb''
                 [0x02, 0x00, 0x00, 0x00, 0x00, 0x00]), Reply (Returns PyNone),
         Call (WriteGattChar ''0000fff5-0000-1000-8000-00805f9b34fb''
                 [0x0B, 0x01, 0x00, 0x00, 0x00, 0x00]), Reply (Returns PyNone),
         Call (StartNotify ''0000fff4-0000-1000-8000-00805f9b34fb'')]"
proof -
  define A where "A = \<lparr>address = Some ''AA:BB'', probe1_name = None, probe2_name = None,
    debug = False\<rparr>"
  define G where "G = \<lparr>temperature = Map.empty, last_received = 0 :: double, logger = []\<rparr>"
  have h: "PyObject \<noteq> PyNone" by simp
  note t = settings_command_frames [where a = A and g = G and ?v1.0 = PyNone and ?v2.0 = PyObject
      and ?v3.0 = PyObject and ?v4.0 = PyObject and ?v5.0 = PyNone and ?v6.0 = PyNone]
  have tr: "trace (main A G [Returns PyNone, Returns PyObject, Returns PyObject, Returns PyObject,
             Returns PyNone, Returns PyNone]) =
        [Call ScanDevices, Reply (Returns PyNone),
         Call (FindDeviceByAddress (address A)), Reply (Returns PyObject),
         Call Connect, Reply (Returns PyObject),
         Call Services, Reply (Returns PyObject),
         Call (WriteGattChar ''0000fff5-0000-1000-8000-00805f9b34fb''
                 [0x02, 0x00, 0x00, 0x00, 0x00, 0x00]), Reply (Returns PyNone),
         Call (WriteGattChar ''0000fff5-0000-1000-8000-00805f9b34fb''
                 [0x0B, 0x01, 0x00, 0x00, 0x00, 0x00]), Reply (Returns PyNone),
         Call (StartNotify ''0000fff4-0000-1000-8000-00805f9b34fb'')]"
    using t h by blast
  have ad: "address A = Some ''AA:BB''" by (simp add: A_def)
  have mem: "Call (WriteGattChar ''0000fff5-0000-1000-8000-00805f9b34fb''
      [0x0B, 0x01, 0x00, 0x00, 0x00, 0x00])
     \<in> set (trace (main A G [Returns PyNone, Returns PyObject, Returns PyObject, Returns PyObject,
                Returns PyNone, Returns PyNone]))"
    unfolding tr by simp
  show ?thesis
    using h mem tr unfolding ad unfolding A_def G_def by blast
qed

end
